theory Spec2Isabelle
  imports Complex_Main "HOL-Library.Monad_Syntax"
begin

section \<open>The plotting routines of MC3 (plots/mcplots.py)\<close>

text \<open>
  The module holds five renderers: \<open>trace\<close>, \<open>pairwise\<close>, \<open>histogram\<close>, \<open>RMS\<close> and
  \<open>modelfit\<close>. Each one slices and combines numeric arrays and hands the pieces to the
  plotting library. The model keeps that shape:

  \<^item> a renderer returns the list of calls it makes into the plotting library and into the
    package's own collaborators (\<open>mu.credregion\<close>, \<open>ba.binarray\<close>, \<open>ba.weightedbin\<close>), with
    the data of each call; calls that only style a figure (tick sizes, axis labels,
    margins, edge colours) carry no data of the arrays and are left out, and with them
    the parameter \<open>parname\<close>, taken at its default;
  \<^item> arrays live in a store and are passed by address, as Python passes references; an
    array that the code builds and later assigns into (\<open>good\<close> in \<open>trace\<close>, the list
    \<open>yran\<close> in \<open>RMS\<close>) is allocated in the store, an array that is only read after it is
    built is carried as a value;
  \<^item> a raised exception is the result \<open>None\<close>: the module catches nothing, so every
    exception reaches the caller;
  \<^item> the module is Python 2 code (\<open>import colormaps\<close> is an implicit relative import and
    the layout arithmetic relies on \<open>/\<close> flooring integers), so \<open>/\<close> between integers is
    \<open>div\<close> and \<open>%\<close> is \<open>mod\<close>;
  \<^item> a float is a real number: rounding, \<open>inf\<close> and \<open>nan\<close> are not represented.
\<close>

subsection \<open>Arrays and the store\<close>

type_synonym addr = nat

datatype obj =
    Vec "real list"
  | IVec "int list"
  | BVec "bool list"
  | Mat nat "real list list"

text \<open>
  \<open>Mat c rows\<close> is a two-dimensional array of shape \<open>(length rows, c)\<close>, each row a list of
  \<open>c\<close> numbers; the column count is kept beside the rows because an array with no row
  still has one.
\<close>

type_synonym heap = "obj list"

definition alloc :: "heap \<Rightarrow> obj \<Rightarrow> heap \<times> addr" where
  "alloc h v = (h @ [v], length h)"

definition assign :: "heap \<Rightarrow> addr \<Rightarrow> obj \<Rightarrow> heap option" where
  "assign h a v = (if a < length h then Some (h[a := v]) else None)"

definition deref :: "heap \<Rightarrow> addr \<Rightarrow> obj option" where
  "deref h a = (if a < length h then Some (h ! a) else None)"

definition load_vec :: "heap \<Rightarrow> addr \<Rightarrow> real list option" where
  "load_vec h a = (case deref h a of Some (Vec v) \<Rightarrow> Some v | _ \<Rightarrow> None)"

definition load_ivec :: "heap \<Rightarrow> addr \<Rightarrow> int list option" where
  "load_ivec h a = (case deref h a of Some (IVec v) \<Rightarrow> Some v | _ \<Rightarrow> None)"

definition load_bvec :: "heap \<Rightarrow> addr \<Rightarrow> bool list option" where
  "load_bvec h a = (case deref h a of Some (BVec v) \<Rightarrow> Some v | _ \<Rightarrow> None)"

definition load_mat :: "heap \<Rightarrow> addr \<Rightarrow> (nat \<times> real list list) option" where
  "load_mat h a = (case deref h a of Some (Mat c rows) \<Rightarrow> Some (c, rows) | _ \<Rightarrow> None)"

text \<open>\<open>np.size\<close>: the number of elements.\<close>

fun np_size :: "obj \<Rightarrow> nat" where
  "np_size (Vec v) = length v"
| "np_size (IVec v) = length v"
| "np_size (BVec v) = length v"
| "np_size (Mat c rows) = length rows * c"

subsection \<open>Indexing and slicing\<close>

text \<open>\<open>xs[i]\<close> for \<open>i \<ge> 0\<close> and \<open>xs[-1]\<close>: IndexError out of range.\<close>

definition nth_opt :: "'a list \<Rightarrow> nat \<Rightarrow> 'a option" where
  "nth_opt xs i = (if i < length xs then Some (xs ! i) else None)"

definition last_opt :: "'a list \<Rightarrow> 'a option" where
  "last_opt xs = (if xs = [] then None else Some (last xs))"

text \<open>Every \<open>k\<close>-th element from the first one on (\<open>k \<ge> 1\<close>).\<close>

fun every :: "nat \<Rightarrow> 'a list \<Rightarrow> 'a list" where
  "every k [] = []"
| "every k (x # xs) = x # every k (drop (k - 1) xs)"

text \<open>
  \<open>xs[0::step]\<close>: a zero step raises ValueError; a negative step walks down from index 0
  and so yields the first element only.
\<close>

definition strided :: "int \<Rightarrow> 'a list \<Rightarrow> 'a list" where
  "strided step xs = (if step < 0 then take 1 xs else every (nat step) xs)"

definition slice0 :: "int \<Rightarrow> 'a list \<Rightarrow> 'a list option" where
  "slice0 step xs = (if step = 0 then None else Some (strided step xs))"

text \<open>\<open>xs[::step]\<close>: a negative step walks down from the last element.\<close>

definition slice_step :: "int \<Rightarrow> 'a list \<Rightarrow> 'a list option" where
  "slice_step step xs =
     (if step = 0 then None
      else if step < 0 then Some (every (nat (- step)) (rev xs))
      else Some (every (nat step) xs))"

text \<open>\<open>xs[b:]\<close>: a negative \<open>b\<close> counts from the end, and is clipped at the start.\<close>

definition from_index :: "int \<Rightarrow> 'a list \<Rightarrow> 'a list" where
  "from_index b xs =
     (if 0 \<le> b then drop (nat b) xs else drop (nat (int (length xs) + b)) xs)"

subsection \<open>Array arithmetic\<close>

text \<open>\<open>np.amax\<close> and \<open>np.amin\<close>: ValueError on an empty array.\<close>

definition amax :: "'a::linorder list \<Rightarrow> 'a option" where
  "amax xs = (case xs of [] \<Rightarrow> None | x # r \<Rightarrow> Some (fold max r x))"

definition amin :: "'a::linorder list \<Rightarrow> 'a option" where
  "amin xs = (case xs of [] \<Rightarrow> None | x # r \<Rightarrow> Some (fold min r x))"

text \<open>
  An operator between two one-dimensional arrays: element by element when the lengths
  agree, an array of one element is broadcast, any other pair of lengths raises ValueError.
\<close>

definition ew2 :: "(real \<Rightarrow> real \<Rightarrow> real) \<Rightarrow> real list \<Rightarrow> real list \<Rightarrow> real list option" where
  "ew2 f xs ys =
     (if length xs = length ys then Some (map2 f xs ys)
      else if length ys = 1 then Some (map (\<lambda>x. f x (hd ys)) xs)
      else if length xs = 1 then Some (map (f (hd xs)) ys)
      else None)"

subsection \<open>The calls a renderer makes\<close>

datatype call =
    Figure int real real
  | Clf
  | Subplot int int int
  | Axes "real list"
  | Plot "real list" string
  | PlotXY "real list" "real list" string
  | Semilogx "real list" "real list"
  | Loglog "real list" "real list"
  | Errorbar "real list" "real list" "real list list"
  | Vlines "real list" real real
  | Hist "real list" nat bool
  | FillBetween "real list" "real list" "bool list"
  | Contourf "real list list" "real list" "real \<times> real \<times> real \<times> real"
  | Xlim "real list"
  | Ylim "real list"
  | SetYlim real real
  | Legend
  | Colorbar "real list"
  | Savefig string
  | Credregion "real list" real "real list option" "real list option"
  | Binarray "real list" "real list" "real list" int
  | Weightedbin "real list" int

text \<open>
  \<open>Figure n w h\<close> is \<open>plt.figure(n, figsize=(w, h))\<close>, \<open>Hist data bins step\<close> is \<open>plt.hist\<close>
  (\<open>step\<close>: drawn with \<open>histtype='step'\<close>), \<open>FillBetween x y2 mask\<close> is
  \<open>ax.fill_between(x, 0, y2, where=mask)\<close>, \<open>Contourf h levels extent\<close> is \<open>plt.contourf\<close>,
  \<open>Xlim\<close> and \<open>Ylim\<close> are \<open>plt.xlim\<close> and \<open>plt.ylim\<close>, \<open>SetYlim\<close> is \<open>ax.set_ylim\<close>,
  \<open>Errorbar x y yerr\<close> is \<open>plt.errorbar\<close> with one array of errors or a pair of them,
  \<open>Colorbar bounds\<close> is the colour bar \<open>mpl.colorbar.ColorbarBase\<close> over the boundaries
  \<open>bounds\<close>.
\<close>

text \<open>
  What the collaborators answer is not in this module; the model takes it from a record of
  functions. Each of them may raise. \<open>get_ylim\<close> reads the limits the plotting library
  chose for the current panel, given the calls that drew on it.
\<close>

record lib =
  get_ylim :: "call list \<Rightarrow> real \<times> real"
  hist :: "real list \<Rightarrow> nat \<Rightarrow> (real list \<times> real list) option"
  credregion :: "real list \<Rightarrow> real \<Rightarrow> real list option \<Rightarrow> real list option
                   \<Rightarrow> (real list \<times> real list \<times> real) option"
  interp1d_nearest :: "real list \<Rightarrow> real list \<Rightarrow> real list \<Rightarrow> real list option"
  histogram2d :: "real list \<Rightarrow> real list \<Rightarrow> int
                   \<Rightarrow> (real list list \<times> real list \<times> real list) option"
  binarray :: "real list \<Rightarrow> real list \<Rightarrow> real list \<Rightarrow> int
                   \<Rightarrow> (real list \<times> real list \<times> real list) option"
  weightedbin :: "real list \<Rightarrow> int \<Rightarrow> real list option"

definition savefig :: "string option \<Rightarrow> call list" where
  "savefig savefile = (case savefile of None \<Rightarrow> [] | Some name \<Rightarrow> [Savefig name])"

subsection \<open>modelfit\<close>

text \<open>
  \<open>binsize = int((np.size(data)-1)/nbins + 1)\<close>, with \<open>/\<close> the division of two Python 2
  integers: it floors, and raises ZeroDivisionError for \<open>nbins = 0\<close>.
\<close>

definition binsize :: "nat \<Rightarrow> int \<Rightarrow> int option" where
  "binsize n nbins = (if nbins = 0 then None else Some ((int n - 1) div nbins + 1))"

definition modelfit ::
  "lib \<Rightarrow> heap \<Rightarrow> addr \<Rightarrow> addr \<Rightarrow> addr \<Rightarrow> addr \<Rightarrow> int \<Rightarrow> int \<Rightarrow> string option \<Rightarrow> string
     \<Rightarrow> (heap \<times> call list) option" where
  "modelfit L h data uncert indparams model nbins fignum savefile fmt = do {
     d \<leftarrow> deref h data;
     bs \<leftarrow> binsize (np_size d) nbins;
     dv \<leftarrow> load_vec h data;
     uv \<leftarrow> load_vec h uncert;
     xv \<leftarrow> load_vec h indparams;
     (bindata, binuncert, binindp) \<leftarrow> binarray L dv uv xv bs;
     mv \<leftarrow> load_vec h model;
     binmodel \<leftarrow> weightedbin L mv bs;
     resid \<leftarrow> ew2 (-) bindata binmodel;
     x0 \<leftarrow> nth_opt xv 0;
     xl \<leftarrow> last_opt xv;
     Some (h,
       [Binarray dv uv xv bs, Weightedbin mv bs,
        Figure fignum 8 6, Clf,
        Axes [15 / 100, 1 / 10, 8 / 10, 2 / 10],
        Errorbar binindp resid [binuncert],
        PlotXY [x0, xl] [0, 0] ''k:'',
        Axes [15 / 100, 35 / 100, 8 / 10, 55 / 100],
        Errorbar binindp bindata [binuncert],
        PlotXY xv mv ''b'',
        Legend]
       @ savefig savefile)
   }"

subsection \<open>RMS\<close>

text \<open>
  The default y range. The list \<open>yran\<close> is built, its first element is then assigned, and in
  ratio mode the name is bound to a second, new list.
\<close>

definition default_yran ::
  "heap \<Rightarrow> real list \<Rightarrow> real list \<Rightarrow> real list \<Rightarrow> real list \<Rightarrow> bool \<Rightarrow> (heap \<times> addr) option" where
  "default_yran h rms stderr rmslo rmshi ratio = do {
     lo \<leftarrow> ew2 (-) rms rmslo;
     ymin \<leftarrow> amin lo;
     hi \<leftarrow> ew2 (+) rms rmshi;
     ymax \<leftarrow> amax hi;
     let (h1, yran) = alloc h (Vec [ymin, ymax]);
     y \<leftarrow> load_vec h1 yran;
     y0 \<leftarrow> nth_opt y 0;
     e \<leftarrow> last_opt stderr;
     m \<leftarrow> amin [y0, e];
     h2 \<leftarrow> assign h1 yran (Vec (y[0 := m]));
     if ratio then do {
       q \<leftarrow> ew2 (/) rms stderr;
       top \<leftarrow> amax q;
       Some (alloc h2 (Vec [0, top + 1]))
     } else Some (h2, yran)
   }"

definition RMS ::
  "heap \<Rightarrow> addr \<Rightarrow> addr \<Rightarrow> addr \<Rightarrow> addr \<Rightarrow> addr \<Rightarrow> real option \<Rightarrow> int \<Rightarrow> addr \<Rightarrow> bool \<Rightarrow> int
     \<Rightarrow> addr option \<Rightarrow> addr option \<Rightarrow> string option \<Rightarrow> (heap \<times> call list) option" where
  "RMS h binsz rms stderr rmslo rmshi cadence binstep timepoints ratio fignum yran xran savefile = do {
     r \<leftarrow> deref h rms;
     if np_size r \<le> 1 then Some (h, [])
     else do {
       let cad = (case cadence of None \<Rightarrow> 1 | Some c \<Rightarrow> c);
       rv \<leftarrow> load_vec h rms;
       sv \<leftarrow> load_vec h stderr;
       lov \<leftarrow> load_vec h rmslo;
       hiv \<leftarrow> load_vec h rmshi;
       bz \<leftarrow> load_vec h binsz;
       (h1, yr) \<leftarrow> (case yran of
                      None \<Rightarrow> default_yran h rv sv lov hiv ratio
                    | Some y \<Rightarrow> Some (h, y));
       xr \<leftarrow> (case xran of
                None \<Rightarrow> do { m \<leftarrow> amax (map (\<lambda>b. b * cad) bz); Some [cad, m] }
              | Some x \<Rightarrow> load_vec h1 x);
       bzs \<leftarrow> slice_step binstep bz;
       curves \<leftarrow>
         (if ratio then do {
            q \<leftarrow> ew2 (/) rv sv;
            qs \<leftarrow> slice_step binstep q;
            ql \<leftarrow> ew2 (/) lov sv;
            qls \<leftarrow> slice_step binstep ql;
            qh \<leftarrow> ew2 (/) hiv sv;
            qhs \<leftarrow> slice_step binstep qh;
            Some [Errorbar (map (\<lambda>b. b * cad) bzs) qs [qls, qhs], Semilogx xr [1, 1]]
          } else do {
            rs \<leftarrow> slice_step binstep rv;
            ls \<leftarrow> slice_step binstep lov;
            hs \<leftarrow> slice_step binstep hiv;
            Some [Errorbar (map (\<lambda>b. b * cad) bzs) rs [ls, hs],
                  Loglog (map (\<lambda>b. b * cad) bz) sv, Legend]
          });
       tp \<leftarrow> load_vec h1 timepoints;
       yv \<leftarrow> load_vec h1 yr;
       marks \<leftarrow> those (map (\<lambda>time. do {
                  y0 \<leftarrow> nth_opt yv 0;
                  y1 \<leftarrow> nth_opt yv 1;
                  Some (Vlines [time] y0 y1) }) tp);
       Some (h1,
         [Figure fignum 8 6, Clf, Subplot 1 1 1] @ curves @ marks
         @ [Ylim yv, Xlim xr] @ savefig savefile)
     }
   }"

text \<open>The y ranges a list of calls applies with \<open>plt.ylim\<close>.\<close>

fun ylims :: "call list \<Rightarrow> real list list" where
  "ylims [] = []"
| "ylims (Ylim y # cs) = y # ylims cs"
| "ylims (c # cs) = ylims cs"

subsection \<open>More array operations\<close>

text \<open>Column \<open>i\<close> of a two-dimensional array, \<open>posterior[:, i]\<close>.\<close>

definition column :: "nat \<Rightarrow> real list list \<Rightarrow> real list" where
  "column i rows = map (\<lambda>r. r ! i) rows"

text \<open>\<open>np.where(Z == c)[0]\<close>: the indices that hold \<open>c\<close>, in increasing order.\<close>

definition where_eq :: "int list \<Rightarrow> int \<Rightarrow> nat list" where
  "where_eq Z c = filter (\<lambda>k. Z ! k = c) [0..<length Z]"

text \<open>\<open>good[idx] = True\<close> for an array \<open>idx\<close> of indices.\<close>

definition set_true :: "nat list \<Rightarrow> bool list \<Rightarrow> bool list" where
  "set_true idx g = fold (\<lambda>k g'. g'[k := True]) idx g"

text \<open>
  \<open>xs[good]\<close> for a Boolean array \<open>good\<close>: the elements (rows) where \<open>good\<close> holds, as a new
  array; IndexError when the lengths differ.
\<close>

definition mask_select :: "bool list \<Rightarrow> 'a list \<Rightarrow> 'a list option" where
  "mask_select g xs =
     (if length g = length xs then Some (map snd (filter fst (zip g xs))) else None)"

text \<open>\<open>np.lexsort([Z])\<close>: the indices that sort \<open>Z\<close>, equal keys in their original order.\<close>

definition lexsort :: "int list \<Rightarrow> nat list" where
  "lexsort Z = sort_key (\<lambda>k. Z ! k) [0..<length Z]"

text \<open>\<open>xs[idx]\<close> for an array \<open>idx\<close> of indices.\<close>

definition take_idx :: "nat list \<Rightarrow> 'a list \<Rightarrow> 'a list" where
  "take_idx idx xs = map (\<lambda>k. xs ! k) idx"

text \<open>\<open>np.ediff1d\<close>: the differences of consecutive elements.\<close>

definition ediff1d :: "int list \<Rightarrow> int list" where
  "ediff1d a = map (\<lambda>k. a ! (k + 1) - a ! k) [0..<length a - 1]"

text \<open>\<open>np.where(d)[0]\<close>: the indices of the non-zero elements.\<close>

definition nonzero :: "int list \<Rightarrow> nat list" where
  "nonzero d = filter (\<lambda>k. d ! k \<noteq> 0) [0..<length d]"

text \<open>
  \<open>np.linspace(a, b, n)\<close>: \<open>n\<close> evenly spaced values from \<open>a\<close> to \<open>b\<close>, both included; \<open>[a]\<close> for
  \<open>n = 1\<close>, the empty array for \<open>n = 0\<close>, ValueError for a negative \<open>n\<close>.
\<close>

definition linspace :: "real \<Rightarrow> real \<Rightarrow> int \<Rightarrow> real list option" where
  "linspace a b n =
     (if n < 0 then None
      else Some (map (\<lambda>k. a + real k * ((b - a) / real (nat n - 1))) [0..<nat n]))"

subsection \<open>trace\<close>

text \<open>
  One turn of the loop over the chains:
  \<open>good[np.where(Zchain == c)[0][burnin:]] = True\<close>.
\<close>

definition mark_chain :: "int list \<Rightarrow> int \<Rightarrow> addr \<Rightarrow> heap \<Rightarrow> nat \<Rightarrow> heap option" where
  "mark_chain Z burnin good h c = do {
     g \<leftarrow> load_bvec h good;
     assign h good (BVec (set_true (from_index burnin (where_eq Z (int c))) g))
   }"

fun mark_chains :: "int list \<Rightarrow> int \<Rightarrow> addr \<Rightarrow> nat list \<Rightarrow> heap \<Rightarrow> heap option" where
  "mark_chains Z burnin good [] h = Some h"
| "mark_chains Z burnin good (c # cs) h = do {
     h' \<leftarrow> mark_chain Z burnin good h c;
     mark_chains Z burnin good cs h'
   }"

text \<open>
  The block under \<open>if Zchain is not None\<close>: it yields the store, the rows and chain indices
  that are kept, sorted by chain, and the places of the separations.
\<close>

definition select_chains ::
  "heap \<Rightarrow> real list list \<Rightarrow> int list \<Rightarrow> int \<Rightarrow> int
     \<Rightarrow> (heap \<times> real list list \<times> int list \<times> nat list) option" where
  "select_chains h rows Z thinning burnin = do {
     top \<leftarrow> amax Z;
     let nchains = top + 1;
     let (h1, good) = alloc h (BVec (replicate (length Z) False));
     h2 \<leftarrow> mark_chains Z burnin good [0..<nat nchains] h1;
     g \<leftarrow> load_bvec h2 good;
     rows1 \<leftarrow> mask_select g rows;
     Z1 \<leftarrow> mask_select g Z;
     let zsort = lexsort Z1;
     let rows2 = take_idx zsort rows1;
     let Z2 = take_idx zsort Z1;
     Zt \<leftarrow> slice0 thinning Z2;
     Some (h2, rows2, Z2, nonzero (ediff1d Zt))
   }"

definition trace_panel ::
  "lib \<Rightarrow> nat \<Rightarrow> real list list \<Rightarrow> int \<Rightarrow> nat list option \<Rightarrow> nat \<Rightarrow> string \<Rightarrow> nat
     \<Rightarrow> call list option" where
  "trace_panel L npars rows thinning xsep xmax fmt i = do {
     data \<leftarrow> slice0 thinning (column i rows);
     let yran = get_ylim L [Plot data fmt];
     Some ([Subplot (int npars) 1 (int i + 1), Plot data fmt]
           @ (case xsep of None \<Rightarrow> [] | Some xs \<Rightarrow> [Vlines (map real xs) (fst yran) (snd yran)])
           @ [Xlim [0, real xmax], Ylim [fst yran, snd yran]])
   }"

definition trace ::
  "lib \<Rightarrow> heap \<Rightarrow> addr \<Rightarrow> addr option \<Rightarrow> int \<Rightarrow> int \<Rightarrow> int \<Rightarrow> string option \<Rightarrow> string
     \<Rightarrow> (heap \<times> call list) option" where
  "trace L h posterior Zchain thinning burnin fignum savefile fmt = do {
     (c, rows0) \<leftarrow> load_mat h posterior;
     (h1, rows, xsep) \<leftarrow>
       (case Zchain of
          None \<Rightarrow> Some (h, rows0, None)
        | Some z \<Rightarrow> do {
            Z \<leftarrow> load_ivec h z;
            (h2, rows2, Z2, sep) \<leftarrow> select_chains h rows0 Z thinning burnin;
            Some (h2, rows2, Some sep)
          });
     let npars = c;
     thinned \<leftarrow> slice0 thinning rows;
     let xmax = length thinned;
     panels \<leftarrow> those (map (trace_panel L npars rows thinning xsep xmax fmt) [0..<npars]);
     Some (h1, [Figure fignum 8 8, Clf] @ concat panels @ savefig savefile)
   }"







subsection \<open>pairwise\<close>

text \<open>
  The cells the two nested loops visit, row \<open>j\<close> and column \<open>i\<close>, in the order of the
  loops; a cell is plotted when \<open>j > i\<close>.
\<close>

definition cells :: "nat \<Rightarrow> (nat \<times> nat) list" where
  "cells npars = concat (map (\<lambda>j. map (\<lambda>i. (j, i)) [0..<npars - 1]) [1..<npars])"

definition plotted :: "nat \<Rightarrow> (nat \<times> nat) list" where
  "plotted npars = filter (\<lambda>(j, i). j > i) (cells npars)"

text \<open>
  The first pair of loops gathers, for every plotted cell, the transposed histogram, the
  two arrays of bin edges and the upper level \<open>np.amax(h) + 1\<close>.
\<close>

definition gather_cell ::
  "lib \<Rightarrow> real list list \<Rightarrow> int \<Rightarrow> int \<Rightarrow> nat \<times> nat
     \<Rightarrow> (real list list \<times> real list \<times> real list \<times> real) option" where
  "gather_cell L rows thinning nbins ji = do {
     xs \<leftarrow> slice0 thinning (column (snd ji) rows);
     ys \<leftarrow> slice0 thinning (column (fst ji) rows);
     (hh, x, y) \<leftarrow> histogram2d L xs ys nbins;
     top \<leftarrow> amax (concat hh);
     Some (transpose hh, x, y, top + 1)
   }"

definition gather ::
  "lib \<Rightarrow> real list list \<Rightarrow> int \<Rightarrow> int \<Rightarrow> nat
     \<Rightarrow> (real list list \<times> real list \<times> real list \<times> real) list option" where
  "gather L rows thinning nbins npars =
     those (map (gather_cell L rows thinning nbins) (plotted npars))"

text \<open>
  The second pair of loops, with its two counters: \<open>sub\<close> is the subplot index \<open>h\<close> of the
  source, counted for every cell, and \<open>k\<close> is the index of the histogram, counted for the
  plotted cells.
\<close>

fun plot_cells ::
  "(real list list \<times> real list \<times> real list \<times> real) list \<Rightarrow> real list \<Rightarrow> int \<Rightarrow> nat
     \<Rightarrow> (nat \<times> nat) list \<Rightarrow> int \<Rightarrow> nat \<Rightarrow> call list option" where
  "plot_cells G lmax nlevels npars [] sub k = Some []"
| "plot_cells G lmax nlevels npars ((j, i) # rest) sub k =
     (if j > i then do {
        (hist_k, x, y, m) \<leftarrow> nth_opt G k;
        top \<leftarrow> nth_opt lmax k;
        levels \<leftarrow> linspace 1 top nlevels;
        x0 \<leftarrow> nth_opt x 0;
        x1 \<leftarrow> last_opt x;
        y0 \<leftarrow> nth_opt y 0;
        y1 \<leftarrow> last_opt y;
        more \<leftarrow> plot_cells G lmax nlevels npars rest (sub + 1) (k + 1);
        Some ([Subplot (int npars - 1) (int npars - 1) sub,
               Contourf hist_k (0 # levels) (x0, x1, y0, y1)] @ more)
      } else plot_cells G lmax nlevels npars rest (sub + 1) k)"

definition pairwise ::
  "lib \<Rightarrow> heap \<Rightarrow> addr \<Rightarrow> int \<Rightarrow> int \<Rightarrow> string option \<Rightarrow> int \<Rightarrow> int \<Rightarrow> bool
     \<Rightarrow> (heap \<times> call list) option" where
  "pairwise L h posterior thinning fignum savefile nbins nlevels absolute_dens = do {
     (npars, rows) \<leftarrow> load_mat h posterior;
     if npars = 1 then Some (h, [])
     else do {
       G \<leftarrow> gather L rows thinning nbins npars;
       let lmax0 = map (\<lambda>(hist_k, x, y, m). m) G;
       lmax \<leftarrow> (if absolute_dens
                 then do { m \<leftarrow> amax lmax0; Some (replicate (npars * (npars + 1) * 2) m) }
                 else Some lmax0);
       panels \<leftarrow> plot_cells G lmax nlevels npars (cells npars) 1 0;
       bounds \<leftarrow> linspace 0 1 nlevels;
       Some (h, [Figure fignum 8 8, Clf] @ panels @ [Colorbar bounds] @ savefig savefile)
     }
   }"

text \<open>
  The largest bin count of the two-dimensional histogram of a cell, \<open>np.amax(h)\<close>, for
  stating what the levels are.
\<close>

definition bin_max :: "lib \<Rightarrow> real list list \<Rightarrow> int \<Rightarrow> int \<Rightarrow> nat \<times> nat \<Rightarrow> real" where
  "bin_max L rows thinning nbins ji =
     (case histogram2d L (strided thinning (column (snd ji) rows))
             (strided thinning (column (fst ji) rows)) nbins of
        Some (hh, x, y) \<Rightarrow> Max (set (concat hh))
      | None \<Rightarrow> 0)"

text \<open>The contour plots among a list of calls: histogram, levels and extent of each.\<close>

fun contours ::
  "call list \<Rightarrow> (real list list \<times> real list \<times> (real \<times> real \<times> real \<times> real)) list" where
  "contours [] = []"
| "contours (Contourf hh levels ext # cs) = (hh, levels, ext) # contours cs"
| "contours (c # cs) = contours cs"

subsection \<open>histogram\<close>

text \<open>
  The arguments \<open>pdf\<close> and \<open>xpdf\<close>: \<open>None\<close>, one array, or a list with an array or \<open>None\<close>
  for each parameter.
\<close>

datatype arrays = NoArray | OneArray addr | ArrayList "addr option list"

text \<open>
  \<open>(pdf[i], xpdf[i])\<close> after the two statements that turn \<open>pdf\<close> and \<open>xpdf\<close> into lists:
  with \<open>pdf\<close> absent both become \<open>[None]*npars\<close>; with \<open>pdf\<close> a single array they become
  \<open>[pdf]\<close> and \<open>[xpdf]\<close>; a list is kept. An index out of range raises IndexError and
  indexing an absent \<open>xpdf\<close> raises TypeError. Two shapes that would hand the collaborator
  something other than an array or \<open>None\<close> as the grid (a list of arrays beside a single
  \<open>pdf\<close>, a single array beside a list \<open>pdf\<close>) have no result in the model.
\<close>

definition pdf_item :: "nat \<Rightarrow> arrays \<Rightarrow> arrays \<Rightarrow> nat \<Rightarrow> (addr option \<times> addr option) option" where
  "pdf_item npars pdf xpdf i =
     (case pdf of
        NoArray \<Rightarrow> (if i < npars then Some (None, None) else None)
      | OneArray a \<Rightarrow>
          (if i = 0
           then (case xpdf of
                   NoArray \<Rightarrow> Some (Some a, None)
                 | OneArray b \<Rightarrow> Some (Some a, Some b)
                 | ArrayList m \<Rightarrow> None)
           else None)
      | ArrayList l \<Rightarrow> do {
          p \<leftarrow> nth_opt l i;
          x \<leftarrow> (case xpdf of ArrayList m \<Rightarrow> nth_opt m i | _ \<Rightarrow> None);
          Some (p, x)
        })"

definition load_opt :: "heap \<Rightarrow> addr option \<Rightarrow> real list option option" where
  "load_opt h a = (case a of None \<Rightarrow> Some None | Some b \<Rightarrow> map_option Some (load_vec h b))"

text \<open>The number of rows and of columns of the grid of panels.\<close>

definition nrows :: "int \<Rightarrow> int" where
  "nrows npars = (if npars < 10 then (npars - 1) div 3 + 1 else (npars - 1) div 4 + 1)"

definition ncolumns :: "int \<Rightarrow> int" where
  "ncolumns npars =
     (if npars > 9 then 4
      else if npars > 4 then 3
      else (npars + 2) div 3 + (npars + 2) mod 3)"

text \<open>
  The block under \<open>if percentile is not None\<close> for one panel: the call to the collaborator,
  the histogram padded with a zero bin on each side, its nearest-neighbour interpolation
  onto the grid, and the shading with the mask \<open>PDF >= HPDmin\<close>.
\<close>

definition hpd_region ::
  "lib \<Rightarrow> heap \<Rightarrow> real list \<Rightarrow> real \<Rightarrow> addr option \<Rightarrow> addr option \<Rightarrow> real list \<Rightarrow> real list
     \<Rightarrow> call list option" where
  "hpd_region L h samples percentile pdf_i xpdf_i vals bins = do {
     p \<leftarrow> load_opt h pdf_i;
     x \<leftarrow> load_opt h xpdf_i;
     (PDF, Xpdf, HPDmin) \<leftarrow> credregion L samples percentile p x;
     let vals1 = [0] @ vals @ [0];
     b0 \<leftarrow> nth_opt bins 0;
     b1 \<leftarrow> nth_opt bins 1;
     let bins1 = (b0 - (b1 - b0)) # bins;
     c0 \<leftarrow> nth_opt bins1 0;
     c1 \<leftarrow> nth_opt bins1 1;
     fX \<leftarrow> interp1d_nearest L (map (\<lambda>b. b + (1 / 2) * (c1 - c0)) bins1) vals1 Xpdf;
     Some [Credregion samples percentile p x,
           FillBetween Xpdf fX (map (\<lambda>d. HPDmin \<le> d) PDF)]
   }"

text \<open>
  The first two statements: a one-dimensional posterior becomes a single column, and the
  shape gives the number of parameters. The posterior is an array of floats.
\<close>

definition expand_dims :: "obj \<Rightarrow> (nat \<times> real list list) option" where
  "expand_dims p =
     (case p of
        Vec v \<Rightarrow> Some (1, map (\<lambda>x. [x]) v)
      | Mat c rs \<Rightarrow> Some (c, rs)
      | _ \<Rightarrow> None)"

text \<open>One turn of the loop over the parameters: the calls, and the top of the y axis.\<close>

definition histogram_panel ::
  "lib \<Rightarrow> heap \<Rightarrow> nat \<Rightarrow> real list list \<Rightarrow> int \<Rightarrow> real option \<Rightarrow> arrays \<Rightarrow> arrays \<Rightarrow> nat
     \<Rightarrow> (call list \<times> real) option" where
  "histogram_panel L h npars rows thinning percentile pdf xpdf i = do {
     data \<leftarrow> slice0 thinning (column i rows);
     (vals, bins) \<leftarrow> hist L data 25;
     let drawn = [Hist data 25 (percentile \<noteq> None)];
     shade \<leftarrow> (case percentile of
                 None \<Rightarrow> Some []
               | Some pc \<Rightarrow> do {
                   (pdf_i, xpdf_i) \<leftarrow> pdf_item npars pdf xpdf i;
                   hpd_region L h (column i rows) pc pdf_i xpdf_i vals bins
                 });
     Some ([Subplot (nrows (int npars)) (ncolumns (int npars)) (int i + 1)] @ drawn @ shade,
           snd (get_ylim L (drawn @ shade)))
   }"

definition histogram ::
  "lib \<Rightarrow> heap \<Rightarrow> addr \<Rightarrow> int \<Rightarrow> int \<Rightarrow> string option \<Rightarrow> real option \<Rightarrow> arrays \<Rightarrow> arrays
     \<Rightarrow> (heap \<times> call list) option" where
  "histogram L h posterior thinning fignum savefile percentile pdf xpdf = do {
     p \<leftarrow> deref h posterior;
     (npars, rows) \<leftarrow> expand_dims p;
     let histheight = min (2 + 2 * nrows (int npars)) 8;
     panels \<leftarrow> those (map (histogram_panel L h npars rows thinning percentile pdf xpdf)
                        [0..<npars]);
     let maxylim = fold (\<lambda>(cs, top) m. max m top) panels 0;
     Some (h,
       [Figure fignum 8 (real_of_int histheight), Clf]
       @ concat (map fst panels)
       @ concat (map (\<lambda>i. [Subplot (nrows (int npars)) (ncolumns (int npars)) (int i + 1),
                            SetYlim 0 maxylim]) [0..<npars])
       @ savefig savefile)
   }"

text \<open>The panels, the histograms, the shadings and the collaborator's calls in a list of calls.\<close>

fun subplots :: "call list \<Rightarrow> (int \<times> int \<times> int) list" where
  "subplots [] = []"
| "subplots (Subplot r c n # cs) = (r, c, n) # subplots cs"
| "subplots (c # cs) = subplots cs"

fun hists :: "call list \<Rightarrow> (real list \<times> nat) list" where
  "hists [] = []"
| "hists (Hist data bins step # cs) = (data, bins) # hists cs"
| "hists (c # cs) = hists cs"

fun shadings :: "call list \<Rightarrow> (real list \<times> bool list) list" where
  "shadings [] = []"
| "shadings (FillBetween x y2 m # cs) = (x, m) # shadings cs"
| "shadings (c # cs) = shadings cs"

fun credregion_calls :: "call list \<Rightarrow> real list list" where
  "credregion_calls [] = []"
| "credregion_calls (Credregion samples pc p x # cs) = samples # credregion_calls cs"
| "credregion_calls (c # cs) = credregion_calls cs"

subsection \<open>Collaborators for concrete runs\<close>

text \<open>
  A fixed set of answers, small enough to compute with, that stands for the collaborators
  when a renderer is run on concrete arrays.
\<close>

definition stub_lib :: lib where
  "stub_lib = \<lparr>
     get_ylim = (\<lambda>cs. (0, 1)),
     hist = (\<lambda>data n. Some (replicate n (real (length data)), map real [0..<Suc n])),
     credregion = (\<lambda>samples pc p x. Some ([1, 3, 2], [0, 1, 2], 2)),
     interp1d_nearest = (\<lambda>x y xnew. Some (map (\<lambda>v. 1) xnew)),
     histogram2d = (\<lambda>xs ys n. Some ([[real (length xs), 0], [1, sum_list ys]], [0, 1, 2], [3, 4, 5])),
     binarray = (\<lambda>d u x n. Some (d, u, x)),
     weightedbin = (\<lambda>m n. Some m)
   \<rparr>"

text \<open>A store for \<open>RMS\<close>: bin sizes, RMS, standard error, the two uncertainties, no time point.\<close>

definition rms_heap :: heap where
  "rms_heap = [Vec [1, 2], Vec [4, 3], Vec [2, 1], Vec [1, 1], Vec [1, 1], Vec []]"

text \<open>Two posteriors for \<open>histogram\<close>: two samples of four parameters, four samples of one.\<close>

definition layout_heap :: heap where
  "layout_heap = [Mat 4 [[1, 2, 3, 4], [5, 6, 7, 8]]]"

definition hpd_heap :: heap where
  "hpd_heap = [Mat 1 [[1], [2], [3], [4]]]"

text \<open>A posterior for \<open>pairwise\<close>: two samples of three parameters.\<close>

definition pair_heap :: heap where
  "pair_heap = [Mat 3 [[1, 2, 3], [4, 5, 6]]]"

text \<open>
  A store for \<open>trace\<close>: six samples of one parameter and their chain indices, two
  chains in turn.
\<close>

definition trace_heap :: heap where
  "trace_heap = [Mat 1 [[1], [2], [3], [4], [5], [6]], IVec [0, 1, 0, 1, 0, 1]]"

text \<open>The array \<open>good\<close> after the loop over the chains \<open>cs\<close>, started from \<open>g\<close>.\<close>

definition marks :: "int list \<Rightarrow> int \<Rightarrow> nat list \<Rightarrow> bool list \<Rightarrow> bool list" where
  "marks Z burnin cs g = fold (\<lambda>c g'. set_true (from_index burnin (where_eq Z (int c))) g') cs g"

section \<open>Properties\<close>

subsection \<open>Helper facts\<close>


lemma amax_Max: "xs \<noteq> [] \<Longrightarrow> amax xs = Some (Max (set xs))"
proof (cases xs)
  case Nil
  assume "xs \<noteq> []"
  with Nil show ?thesis by simp
next
  case (Cons a r)
  have "fold max r a = Max (set (a # r))"
    by (rule Max.set_eq_fold [symmetric])
  then show ?thesis using Cons by (simp add: amax_def)
qed

lemma amin_Min: "xs \<noteq> [] \<Longrightarrow> amin xs = Some (Min (set xs))"
proof (cases xs)
  case Nil
  assume "xs \<noteq> []"
  with Nil show ?thesis by simp
next
  case (Cons a r)
  have "fold min r a = Min (set (a # r))"
    by (rule Min.set_eq_fold [symmetric])
  then show ?thesis using Cons by (simp add: amin_def)
qed

lemma load_vec_lt: "load_vec h a = Some v \<Longrightarrow> a < length h"
  by (simp add: load_vec_def deref_def split: if_splits)

lemma load_vec_append: "a < length h \<Longrightarrow> load_vec (h @ g) a = load_vec h a"
  by (simp add: load_vec_def deref_def nth_append)

lemma load_vec_fresh: "load_vec (h @ [Vec v]) (length h) = Some v"
  by (simp add: load_vec_def deref_def)

lemma ylims_append: "ylims (xs @ ys) = ylims xs @ ylims ys"
  by (induction xs rule: ylims.induct) simp_all

lemma ylims_savefig: "ylims (savefig s) = []"
  by (simp add: savefig_def split: option.splits)

lemma those_map_Some: "those (map (\<lambda>x. Some (f x)) xs) = Some (map f xs)"
  by (induction xs) simp_all

lemma ylims_vlines: "ylims (map (\<lambda>t. Vlines [t] a b) tp) = []"
  by (induction tp) simp_all

lemma slice_step_Some: "step \<noteq> 0 \<Longrightarrow> \<exists>ys. slice_step step xs = Some ys"
  by (simp add: slice_step_def)

lemma default_yran_ratio:
  assumes "rv \<noteq> []" "length sv = length rv" "length lov = length rv" "length hiv = length rv"
  shows "\<exists>a b. default_yran h rv sv lov hiv True =
           Some (h @ [Vec [a, b], Vec [0, Max (set (map2 (/) rv sv)) + 1]], Suc (length h))"
proof -
  have ne: "map2 (-) rv lov \<noteq> []" "map2 (+) rv hiv \<noteq> []" "map2 (/) rv sv \<noteq> []" "sv \<noteq> []"
    using assms by auto
  show ?thesis
    using assms ne
    by (simp add: default_yran_def ew2_def amin_Min amax_Max alloc_def load_vec_fresh
        nth_opt_def last_opt_def assign_def del: Max.set_eq_fold Min.set_eq_fold)
qed

lemma those_Some_map: "those xs = Some ys \<Longrightarrow> xs = map Some ys"
  by (induction xs arbitrary: ys) (auto split: option.splits)

lemma those_map_nth:
  assumes "those (map f xs) = Some ys"
  shows "length ys = length xs \<and> (\<forall>i<length xs. f (xs ! i) = Some (ys ! i))"
proof -
  have eq: "map f xs = map Some ys" using assms by (rule those_Some_map)
  then have len: "length ys = length xs" by (metis length_map)
  moreover have "\<forall>i<length xs. f (xs ! i) = Some (ys ! i)"
  proof (intro allI impI)
    fix i assume "i < length xs"
    then have "map f xs ! i = map Some ys ! i" "i < length ys" using eq len by simp_all
    then show "f (xs ! i) = Some (ys ! i)" using \<open>i < length xs\<close> by simp
  qed
  ultimately show ?thesis by simp
qed

lemma subplots_append: "subplots (xs @ ys) = subplots xs @ subplots ys"
  by (induction xs rule: subplots.induct) simp_all

lemma hists_append: "hists (xs @ ys) = hists xs @ hists ys"
  by (induction xs rule: hists.induct) simp_all

lemma shadings_append: "shadings (xs @ ys) = shadings xs @ shadings ys"
  by (induction xs rule: shadings.induct) simp_all


lemma concat_singletons:
  assumes "length ps = n" and "\<And>i. i < n \<Longrightarrow> g (ps ! i) = [v i]"
  shows "concat (map g ps) = map v [0..<n]"
proof -
  have "map g ps = map (\<lambda>i. [v i]) [0..<n]"
    using assms by (auto intro!: nth_equalityI)
  then have "concat (map g ps) = concat (map (\<lambda>i. [v i]) [0..<n])" by simp
  also have "\<dots> = map v [0..<n]" by (induction n) simp_all
  finally show ?thesis .
qed

lemma savefig_extract:
  "subplots (savefig s) = []" "hists (savefig s) = []" "shadings (savefig s) = []"
  "credregion_calls (savefig s) = []"
  by (simp_all add: savefig_def split: option.splits)

lemma rescale_extract:
  "hists (concat (map (\<lambda>i. [Subplot r c (int i + 1), SetYlim 0 m]) is)) = []"
  "shadings (concat (map (\<lambda>i. [Subplot r c (int i + 1), SetYlim 0 m]) is)) = []"
  "credregion_calls (concat (map (\<lambda>i. [Subplot r c (int i + 1), SetYlim 0 m]) is)) = []"
  "subplots (concat (map (\<lambda>i. [Subplot r c (int i + 1), SetYlim 0 m]) is))
     = map (\<lambda>i. (r, c, int i + 1)) is"
  by (induction "is") simp_all

lemma hpd_region_calls:
  assumes "hpd_region L h samples pc a b vals bins = Some cs"
  shows "\<exists>p x PDF Xpdf HPDmin fX.
           load_opt h a = Some p \<and> load_opt h b = Some x
           \<and> credregion L samples pc p x = Some (PDF, Xpdf, HPDmin)
           \<and> cs = [Credregion samples pc p x, FillBetween Xpdf fX (map (\<lambda>d. HPDmin \<le> d) PDF)]"
  using assms
  by (auto simp: hpd_region_def Let_def split: bind_splits prod.splits)

lemma histogram_panel_None:
  assumes "histogram_panel L h npars rows thinning None pdf xpdf i = Some (cs, ytop)"
  shows "\<exists>d. slice0 thinning (column i rows) = Some d
           \<and> cs = [Subplot (nrows (int npars)) (ncolumns (int npars)) (int i + 1), Hist d 25 False]"
  using assms
  by (auto simp: histogram_panel_def Let_def split: bind_splits prod.splits)

lemma histogram_panel_Some:
  assumes "histogram_panel L h npars rows thinning (Some pc) pdf xpdf i = Some (cs, ytop)"
  shows "\<exists>d a b p x PDF Xpdf HPDmin fX.
           slice0 thinning (column i rows) = Some d
           \<and> pdf_item npars pdf xpdf i = Some (a, b)
           \<and> load_opt h a = Some p \<and> load_opt h b = Some x
           \<and> credregion L (column i rows) pc p x = Some (PDF, Xpdf, HPDmin)
           \<and> cs = [Subplot (nrows (int npars)) (ncolumns (int npars)) (int i + 1), Hist d 25 True,
                   Credregion (column i rows) pc p x,
                   FillBetween Xpdf fX (map (\<lambda>d. HPDmin \<le> d) PDF)]"
proof -
  from assms obtain d vals bins a b sh where
      d: "slice0 thinning (column i rows) = Some d"
    and "hist L d 25 = Some (vals, bins)"
    and ab: "pdf_item npars pdf xpdf i = Some (a, b)"
    and sh: "hpd_region L h (column i rows) pc a b vals bins = Some sh"
    and cs: "cs = [Subplot (nrows (int npars)) (ncolumns (int npars)) (int i + 1), Hist d 25 True] @ sh"
    by (auto simp: histogram_panel_def Let_def split: bind_splits prod.splits)
  from hpd_region_calls [OF sh] d ab cs show ?thesis by auto
qed

lemma concat_hd:
  assumes "\<And>p. p \<in> set ps \<Longrightarrow> length (g p) = 1"
  shows "concat (map g ps) = map (\<lambda>p. hd (g p)) ps"
  using assms
proof (induction ps)
  case Nil
  then show ?case by simp
next
  case (Cons p ps)
  have "length (g p) = 1" using Cons.prems by simp
  then obtain v where "g p = [v]" by (cases "g p") auto
  then show ?case using Cons by simp
qed

lemma histogram_unfold:
  assumes "histogram L h posterior thinning fignum savefile percentile pdf xpdf = Some (h', calls)"
    and "deref h posterior = Some p" and "expand_dims p = Some (npars, rows)"
  shows "\<exists>panels m ht.
           those (map (histogram_panel L h npars rows thinning percentile pdf xpdf) [0..<npars])
             = Some panels
           \<and> h' = h
           \<and> calls = [Figure fignum 8 ht, Clf] @ concat (map fst panels)
               @ concat (map (\<lambda>i. [Subplot (nrows (int npars)) (ncolumns (int npars)) (int i + 1),
                                    SetYlim 0 m]) [0..<npars])
               @ savefig savefile"
  using assms
  by (auto simp: histogram_def Let_def split: bind_splits)

lemma histogram_panels:
  assumes "those (map (histogram_panel L h npars rows thinning percentile pdf xpdf) [0..<npars])
             = Some panels"
  shows "length panels = npars"
    and "\<And>i. i < npars \<Longrightarrow>
           histogram_panel L h npars rows thinning percentile pdf xpdf i
             = Some (fst (panels ! i), snd (panels ! i))"
  using those_map_nth [OF assms] by simp_all

lemma histogram_panel_common:
  assumes "histogram_panel L h npars rows thinning percentile pdf xpdf i = Some (cs, ytop)"
  shows "thinning \<noteq> 0
         \<and> hists cs = [(strided thinning (column i rows), 25)]
         \<and> subplots cs = [(nrows (int npars), ncolumns (int npars), int i + 1)]"
proof (cases percentile)
  case None
  with histogram_panel_None [of L h npars rows thinning pdf xpdf i cs ytop] assms
  show ?thesis by (auto simp: slice0_def split: if_splits)
next
  case (Some pc)
  with histogram_panel_Some [of L h npars rows thinning pc pdf xpdf i cs ytop] assms
  show ?thesis by (auto simp: slice0_def split: if_splits)
qed

lemma ncolumns_cases:
  assumes "1 \<le> n"
  shows "ncolumns (int n) = (if n \<le> 3 then int n else if n = 4 then 2 else if n \<le> 9 then 3 else 4)"
proof -
  have "n = 1 \<or> n = 2 \<or> n = 3 \<or> n = 4 \<or> 4 < n" using assms by arith
  then show ?thesis by (auto simp: ncolumns_def)
qed

lemma grid_holds_panels:
  assumes "1 \<le> n"
  shows "int n \<le> nrows (int n) * ncolumns (int n)"
proof -
  consider "n = 1" | "n = 2" | "n = 3" | "n = 4" | "4 < n" "n \<le> 9" | "9 < n"
    using assms by arith
  then show ?thesis
  proof cases
    case 5
    have "int n - 1 < ((int n - 1) div 3 + 1) * 3"
      by presburger
    then show ?thesis using 5 by (simp add: nrows_def ncolumns_def)
  next
    case 6
    have "int n - 1 < ((int n - 1) div 4 + 1) * 4"
      by presburger
    then show ?thesis using 6 by (simp add: nrows_def ncolumns_def)
  qed (simp_all add: nrows_def ncolumns_def)
qed

lemma hpd_run:
  "histogram stub_lib hpd_heap 0 2 (- 12) None (Some (68 / 100)) NoArray NoArray
     = Some (hpd_heap,
         [Figure (- 12) 8 4, Clf, Subplot 1 1 1, Hist [1, 3] 25 True,
          Credregion [1, 2, 3, 4] (68 / 100) None None,
          FillBetween [0, 1, 2] [1, 1, 1] [False, True, True],
          Subplot 1 1 1, SetYlim 0 1])"
  by code_simp

lemma contours_append: "contours (xs @ ys) = contours xs @ contours ys"
  by (induction xs rule: contours.induct) simp_all

lemma contours_savefig: "contours (savefig s) = []"
  by (simp add: savefig_def split: option.splits)







lemma gather_cell_Some:
  assumes "gather_cell L rows thinning nbins ji = Some (a, x, y, m)"
  shows "\<exists>hh. histogram2d L (strided thinning (column (snd ji) rows))
                 (strided thinning (column (fst ji) rows)) nbins = Some (hh, x, y)
              \<and> concat hh \<noteq> [] \<and> a = transpose hh
              \<and> m = bin_max L rows thinning nbins ji + 1"
proof -
  from assms obtain hh t where
      h2: "histogram2d L (strided thinning (column (snd ji) rows))
             (strided thinning (column (fst ji) rows)) nbins = Some (hh, x, y)"
    and t: "amax (concat hh) = Some t" and a: "a = transpose hh" and m: "m = t + 1"
    by (auto simp: gather_cell_def slice0_def split: bind_splits if_splits)
  have ne: "concat hh \<noteq> []"
  proof
    assume "concat hh = []"
    then have "amax (concat hh) = None" by (simp only: amax_def list.case)
    with t show False by simp
  qed
  with t have "t = Max (set (concat hh))" by (simp add: amax_Max del: set_concat)
  then have "m = bin_max L rows thinning nbins ji + 1"
    using m h2 by (simp add: bin_max_def del: set_concat)
  with h2 ne a show ?thesis by blast
qed

lemma gather_nth:
  assumes "gather L rows thinning nbins npars = Some G"
  shows "length G = length (plotted npars)"
    and "\<And>t. t < length (plotted npars) \<Longrightarrow>
           gather_cell L rows thinning nbins (plotted npars ! t) = Some (G ! t)"
  using those_map_nth [OF assms [unfolded gather_def]] by simp_all

lemma plot_cells_contours:
  assumes "plot_cells G lmax nlevels npars cs sub k = Some calls"
  shows "length (contours calls) = length (filter (\<lambda>(j, i). j > i) cs)
       \<and> (\<forall>t<length (contours calls). \<exists>a x y m t' lev ext.
             nth_opt G (k + t) = Some (a, x, y, m) \<and> nth_opt lmax (k + t) = Some t'
             \<and> linspace 1 t' nlevels = Some lev
             \<and> contours calls ! t = (a, 0 # lev, ext))"
  using assms
proof (induction cs arbitrary: sub k calls)
  case Nil
  then show ?case by simp
next
  case (Cons c cs)
  obtain j i where c: "c = (j, i)" by (cases c)
  show ?case
  proof (cases "j > i")
    case False
    with Cons.prems c have "plot_cells G lmax nlevels npars cs (sub + 1) k = Some calls"
      by simp
    from Cons.IH [OF this] False c show ?thesis by simp
  next
    case True
    with Cons.prems c obtain a x y m t' lev x0 x1 y0 y1 more where
        g: "nth_opt G k = Some (a, x, y, m)" and l: "nth_opt lmax k = Some t'"
      and lev: "linspace 1 t' nlevels = Some lev"
      and more: "plot_cells G lmax nlevels npars cs (sub + 1) (k + 1) = Some more"
      and calls: "calls = [Subplot (int npars - 1) (int npars - 1) sub,
                          Contourf a (0 # lev) (x0, x1, y0, y1)] @ more"
      by (auto split: bind_splits)
    note ih = Cons.IH [OF more]
    have len: "length (contours calls) = Suc (length (contours more))"
      by (simp add: calls)
    show ?thesis
    proof (intro conjI allI impI)
      show "length (contours calls) = length (filter (\<lambda>(j, i). j > i) (c # cs))"
        using ih True c by (simp add: calls)
    next
      fix t assume t: "t < length (contours calls)"
      show "\<exists>a x y m t' lev ext.
             nth_opt G (k + t) = Some (a, x, y, m) \<and> nth_opt lmax (k + t) = Some t'
             \<and> linspace 1 t' nlevels = Some lev
             \<and> contours calls ! t = (a, 0 # lev, ext)"
      proof (cases t)
        case 0
        then show ?thesis using g l lev by (simp add: calls)
      next
        case (Suc u)
        then have "u < length (contours more)" using t len by simp
        with ih obtain a' x' y' m' t'' lev' ext' where
            "nth_opt G (k + 1 + u) = Some (a', x', y', m')" "nth_opt lmax (k + 1 + u) = Some t''"
            "linspace 1 t'' nlevels = Some lev'" "contours more ! u = (a', 0 # lev', ext')"
          by blast
        then show ?thesis using Suc by (cases ext') (simp add: calls)
      qed
    qed
  qed
qed


lemma pairwise_unfold:
  assumes "pairwise L h posterior thinning fignum savefile nbins nlevels absolute_dens
             = Some (h', calls)"
    and "load_mat h posterior = Some (npars, rows)" and "npars \<noteq> 1"
  shows "\<exists>G lmax panels.
           gather L rows thinning nbins npars = Some G
           \<and> (if absolute_dens
               then \<exists>m. amax (map (\<lambda>(a, x, y, m). m) G) = Some m
                        \<and> lmax = replicate (npars * (npars + 1) * 2) m
               else lmax = map (\<lambda>(a, x, y, m). m) G)
           \<and> plot_cells G lmax nlevels npars (cells npars) 1 0 = Some panels
           \<and> (\<exists>bounds. calls = [Figure fignum 8 8, Clf] @ panels @ [Colorbar bounds]
                 @ savefig savefile)
           \<and> h' = h"
  using assms
  by (auto simp: pairwise_def Let_def split: bind_splits if_splits)

lemma pairwise_contours:
  assumes run: "pairwise L h posterior thinning fignum savefile nbins nlevels absolute_dens
             = Some (h', calls)"
    and load: "load_mat h posterior = Some (npars, rows)" and n1: "npars \<noteq> 1"
  shows "length (contours calls) = length (plotted npars)"
    and "\<And>t. t < length (plotted npars) \<Longrightarrow>
          \<exists>hh x y lev ext.
            histogram2d L (strided thinning (column (snd (plotted npars ! t)) rows))
                (strided thinning (column (fst (plotted npars ! t)) rows)) nbins = Some (hh, x, y)
            \<and> concat hh \<noteq> []
            \<and> linspace 1 ((if absolute_dens
                             then Max (bin_max L rows thinning nbins ` set (plotted npars))
                             else bin_max L rows thinning nbins (plotted npars ! t)) + 1) nlevels
                = Some lev
            \<and> contours calls ! t = (transpose hh, 0 # lev, ext)"
proof -
  from pairwise_unfold [OF run load n1] obtain G lmax panels where
      G: "gather L rows thinning nbins npars = Some G"
    and lmax: "if absolute_dens
               then \<exists>m. amax (map (\<lambda>(a, x, y, m). m) G) = Some m
                        \<and> lmax = replicate (npars * (npars + 1) * 2) m
               else lmax = map (\<lambda>(a, x, y, m). m) G"
    and pc: "plot_cells G lmax nlevels npars (cells npars) 1 0 = Some panels"
    and calls: "\<exists>bounds. calls = [Figure fignum 8 8, Clf] @ panels @ [Colorbar bounds]
                 @ savefig savefile"
    by blast
  note gn = gather_nth [OF G]
  have cc: "contours calls = contours panels"
    using calls by (auto simp: contours_append contours_savefig)
  from plot_cells_contours [OF pc] have
      len: "length (contours panels) = length (plotted npars)"
    and each: "\<And>t. t < length (contours panels) \<Longrightarrow> \<exists>a x y m t' lev ext.
             nth_opt G t = Some (a, x, y, m) \<and> nth_opt lmax t = Some t'
             \<and> linspace 1 t' nlevels = Some lev
             \<and> contours panels ! t = (a, 0 # lev, ext)"
    by (simp_all add: plotted_def)
  show "length (contours calls) = length (plotted npars)" by (simp add: cc len)
  have ms: "map (\<lambda>(a, x, y, m). m) G = map (\<lambda>ji. bin_max L rows thinning nbins ji + 1) (plotted npars)"
  proof (rule nth_equalityI)
    show "length (map (\<lambda>(a, x, y, m). m) G)
        = length (map (\<lambda>ji. bin_max L rows thinning nbins ji + 1) (plotted npars))"
      by (simp add: gn(1))
  next
    fix t assume "t < length (map (\<lambda>(a, x, y, m). m) G)"
    then have t: "t < length (plotted npars)" by (simp add: gn(1))
    obtain a x y m where g: "G ! t = (a, x, y, m)" by (metis prod_cases4)
    from gather_cell_Some [OF gn(2) [OF t, unfolded g]]
    have "m = bin_max L rows thinning nbins (plotted npars ! t) + 1" by blast
    then show "map (\<lambda>(a, x, y, m). m) G ! t
        = map (\<lambda>ji. bin_max L rows thinning nbins ji + 1) (plotted npars) ! t"
      using t g by (simp add: gn(1))
  qed
  fix t assume t: "t < length (plotted npars)"
  then have ne: "plotted npars \<noteq> []" by auto
  from each [of t] t len obtain a x y m t' lev ext where
      g: "nth_opt G t = Some (a, x, y, m)" and l: "nth_opt lmax t = Some t'"
    and lev: "linspace 1 t' nlevels = Some lev"
    and ct: "contours panels ! t = (a, 0 # lev, ext)"
    by auto
  from g have gt: "G ! t = (a, x, y, m)" by (simp add: nth_opt_def split: if_splits)
  from gather_cell_Some [OF gn(2) [OF t, unfolded gt]] obtain hh where
      h2: "histogram2d L (strided thinning (column (snd (plotted npars ! t)) rows))
                (strided thinning (column (fst (plotted npars ! t)) rows)) nbins = Some (hh, x, y)"
    and hne: "concat hh \<noteq> []" and a: "a = transpose hh"
    by blast
  have t': "t' = (if absolute_dens
                  then Max (bin_max L rows thinning nbins ` set (plotted npars))
                  else bin_max L rows thinning nbins (plotted npars ! t)) + 1"
  proof (cases absolute_dens)
    case False
    with lmax l t show ?thesis by (simp add: ms nth_opt_def split: if_splits)
  next
    case True
    with lmax obtain m' where m': "amax (map (\<lambda>(a, x, y, m). m) G) = Some m'"
      and lm: "lmax = replicate (npars * (npars + 1) * 2) m'" by auto
    have ne': "map (\<lambda>ji. bin_max L rows thinning nbins ji + 1) (plotted npars) \<noteq> []"
      using ne by simp
    have "m' = Max (set (map (\<lambda>ji. bin_max L rows thinning nbins ji + 1) (plotted npars)))"
      using m' amax_Max [OF ne'] by (simp add: ms)
    also have "\<dots> = Max ((\<lambda>v. v + 1) ` (bin_max L rows thinning nbins ` set (plotted npars)))"
      by (simp add: image_image)
    also have "\<dots> = Max (bin_max L rows thinning nbins ` set (plotted npars)) + 1"
      using ne by (intro mono_Max_commute [symmetric]) (auto simp: mono_def)
    finally have "m' = Max (bin_max L rows thinning nbins ` set (plotted npars)) + 1" .
    moreover have "t' = m'" using l lm by (simp add: nth_opt_def split: if_splits)
    ultimately show ?thesis using True by simp
  qed
  show "\<exists>hh x y lev ext.
            histogram2d L (strided thinning (column (snd (plotted npars ! t)) rows))
                (strided thinning (column (fst (plotted npars ! t)) rows)) nbins = Some (hh, x, y)
            \<and> concat hh \<noteq> []
            \<and> linspace 1 ((if absolute_dens
                             then Max (bin_max L rows thinning nbins ` set (plotted npars))
                             else bin_max L rows thinning nbins (plotted npars ! t)) + 1) nlevels
                = Some lev
            \<and> contours calls ! t = (transpose hh, 0 # lev, ext)"
  proof -
    obtain e0 e1 e2 e3 where "ext = (e0, e1, e2, e3)" by (metis prod_cases4)
    have "contours calls ! t = (transpose hh, 0 # lev, ext)" using ct a cc by simp
    with h2 hne lev [unfolded t'] show ?thesis by blast
  qed
qed


lemma linspace_last:
  assumes "2 \<le> n"
  shows "last (0 # map (\<lambda>k. 1 + real k * ((v - 1) / real (nat n - 1))) [0..<nat n]) = v"
proof -
  have pos: "0 < nat n - 1" using assms by simp
  then have ne: "[0..<nat n] \<noteq> []" by simp
  have "last (map (\<lambda>k. 1 + real k * ((v - 1) / real (nat n - 1))) [0..<nat n])
      = 1 + real (nat n - 1) * ((v - 1) / real (nat n - 1))"
    using ne by (simp add: last_map del: upt_eq_Nil_conv)
  also have "\<dots> = v" using pos by simp
  finally show ?thesis using ne by simp
qed

lemma pair_run:
  "pairwise stub_lib pair_heap 0 1 (- 11) None 35 3 False
     = Some (pair_heap,
         [Figure (- 11) 8 8, Clf,
          Subplot 2 2 1, Contourf [[2, 1], [0, 7]] [0, 1, 9 / 2, 8] (0, 2, 3, 5),
          Subplot 2 2 3, Contourf [[2, 1], [0, 9]] [0, 1, 11 / 2, 10] (0, 2, 3, 5),
          Subplot 2 2 4, Contourf [[2, 1], [0, 9]] [0, 1, 11 / 2, 10] (0, 2, 3, 5),
          Colorbar [0, 1 / 2, 1]])"
  by code_simp





















lemma trace_run:
  "trace stub_lib trace_heap 0 (Some 1) 2 1 (- 10) None ''.''
     = Some ([Mat 1 [[1], [2], [3], [4], [5], [6]], IVec [0, 1, 0, 1, 0, 1],
              BVec [False, False, True, True, True, True]],
         [Figure (- 10) 8 8, Clf, Subplot 1 1 1, Plot [3, 4] ''.'',
          Vlines [0] 0 1, Xlim [0, 2], Ylim [0, 1]])"
  by code_simp

lemma rms_run:
  "RMS rms_heap 0 1 2 3 4 None 1 5 True (- 20) None None None
     = Some ([Vec [1, 2], Vec [4, 3], Vec [2, 1], Vec [1, 1], Vec [1, 1], Vec [],
              Vec [1, 5], Vec [0, 4]],
         [Figure (- 20) 8 6, Clf, Subplot 1 1 1,
          Errorbar [1, 2] [2, 3] [[1 / 2, 1], [1 / 2, 1]], Semilogx [1, 2] [1, 1],
          Ylim [0, 4], Xlim [1, 2]])"
  by code_simp

lemma modelfit_run:
  "modelfit stub_lib rms_heap 1 2 0 1 75 (- 22) None ''.''
     = Some (rms_heap,
         [Binarray [4, 3] [2, 1] [1, 2] 1, Weightedbin [4, 3] 1,
          Figure (- 22) 8 6, Clf, Axes [3 / 20, 1 / 10, 4 / 5, 1 / 5],
          Errorbar [1, 2] [0, 0] [[2, 1]], PlotXY [1, 2] [0, 0] ''k:'',
          Axes [3 / 20, 7 / 20, 4 / 5, 11 / 20], Errorbar [1, 2] [4, 3] [[2, 1]],
          PlotXY [1, 2] [4, 3] ''b'', Legend])"
  by code_simp

lemma mark_chain_update:
  assumes "mark_chain Z burnin good h c = Some h'"
  shows "\<exists>v. h' = h[good := v]"
  using assms by (auto simp: mark_chain_def assign_def split: bind_splits if_splits)

lemma mark_chains_update:
  assumes "mark_chains Z burnin good cs h = Some h'"
  shows "h' = h \<or> (\<exists>v. h' = h[good := v])"
  using assms
proof (induction cs arbitrary: h)
  case Nil
  then show ?case by simp
next
  case (Cons c cs)
  then obtain h1 where s: "mark_chain Z burnin good h c = Some h1"
    and r: "mark_chains Z burnin good cs h1 = Some h'"
    by (auto split: bind_splits)
  from mark_chain_update [OF s] obtain v where h1: "h1 = h[good := v]" ..
  from Cons.IH [OF r] show ?case by (auto simp: h1)
qed

lemma select_chains_frame:
  assumes "select_chains h rows Z thinning burnin = Some (h2, r, z, s)"
  shows "take (length h) h2 = h"
proof -
  from assms obtain m where
      "mark_chains Z burnin (length h) [0..<nat (m + 1)] (h @ [BVec (replicate (length Z) False)])
         = Some h2"
    by (auto simp: select_chains_def alloc_def Let_def split: bind_splits)
  from mark_chains_update [OF this] show ?thesis by auto
qed

lemma trace_frame:
  assumes "trace L h posterior Zchain thinning burnin fignum savefile fmt = Some (h', calls)"
  shows "take (length h) h' = h"
proof (cases Zchain)
  case None
  with assms have "h' = h" by (auto simp: trace_def Let_def split: bind_splits)
  then show ?thesis by simp
next
  case (Some z)
  with assms obtain rows Z r zz s where "select_chains h rows Z thinning burnin = Some (h', r, zz, s)"
    by (auto simp: trace_def Let_def split: bind_splits)
  then show ?thesis by (rule select_chains_frame)
qed

lemma default_yran_frame:
  assumes "default_yran h rms stderr rmslo rmshi ratio = Some (h1, y)"
  shows "take (length h) h1 = h"
  using assms
  by (auto simp: default_yran_def alloc_def assign_def Let_def split: bind_splits if_splits)

lemma RMS_frame:
  assumes "RMS h binsz rms stderr rmslo rmshi cadence binstep timepoints ratio fignum yran xran
             savefile = Some (h', calls)"
  shows "take (length h) h' = h"
proof (cases "\<exists>r. deref h rms = Some r \<and> np_size r \<le> 1")
  case True
  with assms have "h' = h" by (auto simp: RMS_def)
  then show ?thesis by simp
next
  case False
  show ?thesis
  proof (cases yran)
    case None
    with assms False obtain rv sv lov hiv yr where
        "default_yran h rv sv lov hiv ratio = Some (h', yr)"
      by (auto simp: RMS_def Let_def split: bind_splits if_splits)
    then show ?thesis by (rule default_yran_frame)
  next
    case (Some y)
    with assms False have "h' = h"
      by (auto simp: RMS_def Let_def split: bind_splits if_splits)
    then show ?thesis by simp
  qed
qed

lemma pairwise_frame:
  assumes "pairwise L h posterior thinning fignum savefile nbins nlevels absolute_dens
             = Some (h', calls)"
  shows "take (length h) h' = h"
proof -
  from assms have "h' = h"
    by (auto simp: pairwise_def Let_def split: bind_splits if_splits)
  then show ?thesis by simp
qed

lemma histogram_frame:
  assumes "histogram L h posterior thinning fignum savefile percentile pdf xpdf = Some (h', calls)"
  shows "take (length h) h' = h"
proof -
  from assms have "h' = h"
    by (auto simp: histogram_def Let_def split: bind_splits)
  then show ?thesis by simp
qed

lemma modelfit_frame:
  assumes "modelfit L h data uncert indparams model nbins fignum savefile fmt = Some (h', calls)"
  shows "take (length h) h' = h"
proof -
  from assms have "h' = h"
    by (auto simp: modelfit_def split: bind_splits)
  then show ?thesis by simp
qed

subsection \<open>modelfit: the bin size\<close>



subsection \<open>RMS: the y range in ratio mode\<close>

text \<open>
  Claim C7. A call of \<open>RMS\<close> with \<open>ratio=True\<close> and \<open>yran=None\<close> on at least two RMS values
  (the arrays of equal length, no standard error zero, \<open>binstep\<close> not zero) returns, and the
  one y range it applies with \<open>plt.ylim\<close> is \<open>[0, max(rms/stderr) + 1]\<close>: its lower bound is 0.
\<close>

theorem RMS_ratio_yrange:
  assumes loads: "load_vec h rms = Some rv" "load_vec h stderr = Some sv"
      "load_vec h rmslo = Some lov" "load_vec h rmshi = Some hiv"
      "load_vec h binsz = Some bz" "load_vec h timepoints = Some tp"
    and two: "2 \<le> length rv"
    and lens: "length sv = length rv" "length lov = length rv" "length hiv = length rv"
      "length bz = length rv"
    and nz: "0 \<notin> set sv"
    and step: "binstep \<noteq> 0"
    and xr: "case xran of None \<Rightarrow> True | Some x \<Rightarrow> load_vec h x \<noteq> None"
  shows "\<exists>h' calls.
           RMS h binsz rms stderr rmslo rmshi cadence binstep timepoints True fignum None xran savefile
             = Some (h', calls)
           \<and> ylims calls = [[0, Max (set (map2 (/) rv sv)) + 1]]"
proof -
  define top where "top = Max (set (map2 (/) rv sv)) + 1"
  define cad where "cad = (case cadence of None \<Rightarrow> (1::real) | Some c \<Rightarrow> c)"
  have ne: "rv \<noteq> []" using two by auto
  obtain a b where "default_yran h rv sv lov hiv True =
      Some (h @ [Vec [a, b], Vec [0, Max (set (map2 (/) rv sv)) + 1]], Suc (length h))"
    using default_yran_ratio [OF ne lens(1,2,3)] by blast
  then have dy: "default_yran h rv sv lov hiv True = Some (h @ [Vec [a, b], Vec [0, top]], Suc (length h))"
    by (simp only: top_def)
  define h1 where "h1 = h @ [Vec [a, b], Vec [0, top]]"
  have lt: "rms < length h" "timepoints < length h"
    using loads by (auto dest: load_vec_lt)
  have sz: "\<not> np_size (h ! rms) \<le> 1"
    using loads(1) two by (auto simp: load_vec_def deref_def split: if_splits obj.splits)
  have dr: "deref h rms = Some (h ! rms)"
    using lt by (simp add: deref_def)
  have tp1: "load_vec h1 timepoints = Some tp"
    using lt loads by (simp add: h1_def load_vec_append)
  have yv: "load_vec h1 (Suc (length h)) = Some [0, top]"
    by (simp add: h1_def load_vec_def deref_def nth_append)
  obtain xv where xv: "(case xran of
                None \<Rightarrow> do { m \<leftarrow> amax (map (\<lambda>b. b * cad) bz); Some [cad, m] }
              | Some x \<Rightarrow> load_vec h1 x) = Some xv"
  proof (cases xran)
    case None
    have "map (\<lambda>b. b * cad) bz \<noteq> []"
      using ne lens by auto
    then show ?thesis using None that by (simp add: amax_Max del: Max.set_eq_fold)
  next
    case (Some x)
    with xr obtain v where "load_vec h x = Some v" by auto
    then have "load_vec h1 x = Some v"
      by (simp add: h1_def load_vec_append load_vec_lt)
    then show ?thesis using Some that by simp
  qed
  obtain bzs qs qls qhs where sl:
      "slice_step binstep bz = Some bzs"
      "slice_step binstep (map2 (/) rv sv) = Some qs"
      "slice_step binstep (map2 (/) lov sv) = Some qls"
      "slice_step binstep (map2 (/) hiv sv) = Some qhs"
    using slice_step_Some [OF step] by metis
  have ew: "ew2 (/) rv sv = Some (map2 (/) rv sv)" "ew2 (/) lov sv = Some (map2 (/) lov sv)"
      "ew2 (/) hiv sv = Some (map2 (/) hiv sv)"
    using lens by (simp_all add: ew2_def)
  have marks: "those (map (\<lambda>time. do {
                  y0 \<leftarrow> nth_opt [0, top] 0;
                  y1 \<leftarrow> nth_opt [0, top] 1;
                  Some (Vlines [time] y0 y1) }) tp) = Some (map (\<lambda>t. Vlines [t] 0 top) tp)"
    by (simp add: nth_opt_def those_map_Some)
  have "RMS h binsz rms stderr rmslo rmshi cadence binstep timepoints True fignum None xran savefile
      = Some (h1, [Figure fignum 8 6, Clf, Subplot 1 1 1]
           @ [Errorbar (map (\<lambda>b. b * cad) bzs) qs [qls, qhs], Semilogx xv [1, 1]]
           @ map (\<lambda>t. Vlines [t] 0 top) tp
           @ [Ylim [0, top], Xlim xv] @ savefig savefile)"
    unfolding RMS_def
    by (simp only: dr sz loads dy ew sl tp1 yv xv marks cad_def [symmetric] h1_def [symmetric]
        Let_def bind.bind_lunit if_False if_True option.case prod.case)
  then show ?thesis
    by (simp add: ylims_append ylims_savefig ylims_vlines top_def)
qed

theorem RMS_ratio_yrange_witness:
  "\<exists>h' calls. RMS rms_heap 0 1 2 3 4 None 1 5 True (- 20) None None None = Some (h', calls)
     \<and> ylims calls = [[0, 4]]"
proof -
  have "Max (set (map2 (/) [4, 3] [2, 1::real])) = 3" by simp
  then show ?thesis
    using RMS_ratio_yrange [of rms_heap 1 "[4, 3]" 2 "[2, 1]" 3 "[1, 1]" 4 "[1, 1]" 0 "[1, 2]" 5 "[]"
        1 None None "- 20" None]
    by (simp add: rms_heap_def load_vec_def deref_def)
qed

subsection \<open>RMS: fewer than two values\<close>

text \<open>
  Claim C8. When the array \<open>rms\<close> holds fewer than two values, \<open>RMS\<close> returns at once: it
  makes no call at all, so it neither opens, clears nor saves a figure, and the store is
  as it was. The instance is \<open>RMS(binsz=[1], rms=[5], ...)\<close>.
\<close>

theorem RMS_single_point_noop:
  assumes "rms < length h" and "np_size (h ! rms) \<le> 1"
  shows "RMS h binsz rms stderr rmslo rmshi cadence binstep timepoints ratio fignum yran xran savefile
         = Some (h, [])"
  using assms by (simp add: RMS_def deref_def)

theorem RMS_single_point_noop_witness:
  "RMS [Vec [1], Vec [5], Vec [5], Vec [1], Vec [1], Vec []] 0 1 2 3 4 None 1 5 False (- 20) None None None
     = Some ([Vec [1], Vec [5], Vec [5], Vec [1], Vec [1], Vec []], [])"
  using RMS_single_point_noop [of 1 "[Vec [1], Vec [5], Vec [5], Vec [1], Vec [1], Vec []]"
      0 2 3 4 None 1 5 False "- 20" None None None]
  by simp

subsection \<open>histogram: the shaded region\<close>

text \<open>
  Claim C1. When \<open>histogram\<close> is called with a percentile and returns, it shades once per
  parameter, and the shading of parameter \<open>i\<close> is made on the grid \<open>Xpdf\<close> that the
  collaborator returned for column \<open>i\<close>, with a mask that has one entry per value of the
  returned density \<open>PDF\<close>, true exactly where \<open>PDF[k] >= HPDmin\<close>. (What the plotting library
  paints for a mask is outside the module.)
\<close>

theorem histogram_hpd_mask:
  assumes "deref h posterior = Some p" and "expand_dims p = Some (npars, rows)"
    and run: "histogram L h posterior thinning fignum savefile (Some pc) pdf xpdf = Some (h', calls)"
  shows "length (shadings calls) = npars
       \<and> (\<forall>i<npars. \<exists>a b p x PDF Xpdf HPDmin.
            pdf_item npars pdf xpdf i = Some (a, b)
            \<and> load_opt h a = Some p \<and> load_opt h b = Some x
            \<and> credregion L (column i rows) pc p x = Some (PDF, Xpdf, HPDmin)
            \<and> fst (shadings calls ! i) = Xpdf
            \<and> length (snd (shadings calls ! i)) = length PDF
            \<and> (\<forall>k<length PDF. snd (shadings calls ! i) ! k = (HPDmin \<le> PDF ! k)))"
proof -
  from histogram_unfold [OF run assms(1,2)] obtain panels m ht where
      ps: "those (map (histogram_panel L h npars rows thinning (Some pc) pdf xpdf) [0..<npars])
             = Some panels"
    and calls: "calls = [Figure fignum 8 ht, Clf] @ concat (map fst panels)
               @ concat (map (\<lambda>i. [Subplot (nrows (int npars)) (ncolumns (int npars)) (int i + 1),
                                    SetYlim 0 m]) [0..<npars])
               @ savefig savefile"
    by blast
  note pl = histogram_panels [OF ps]
  have one: "length (shadings (fst q)) = 1" if "q \<in> set panels" for q
  proof -
    from that obtain i where i: "i < npars" "q = panels ! i"
      using pl(1) by (metis in_set_conv_nth)
    from histogram_panel_Some [OF pl(2) [OF i(1)]] i(2) show ?thesis by auto
  qed
  have sc: "shadings (concat (map fst panels)) = concat (map (\<lambda>q. shadings (fst q)) panels)"
    by (induction panels) (simp_all add: shadings_append)
  have sh: "shadings calls = map (\<lambda>q. hd (shadings (fst q))) panels"
    using concat_hd [of panels "\<lambda>q. shadings (fst q)"] one
    by (simp add: calls shadings_append sc rescale_extract savefig_extract)
  show ?thesis
  proof (intro conjI allI impI)
    show "length (shadings calls) = npars" by (simp add: sh pl(1))
  next
    fix i assume i: "i < npars"
    from histogram_panel_Some [OF pl(2) [OF i]] obtain d a b p x PDF Xpdf HPDmin fX where
        ab: "pdf_item npars pdf xpdf i = Some (a, b)"
      and ld: "load_opt h a = Some p" "load_opt h b = Some x"
      and cr: "credregion L (column i rows) pc p x = Some (PDF, Xpdf, HPDmin)"
      and cs: "fst (panels ! i) = [Subplot (nrows (int npars)) (ncolumns (int npars)) (int i + 1),
                   Hist d 25 True, Credregion (column i rows) pc p x,
                   FillBetween Xpdf fX (map (\<lambda>d. HPDmin \<le> d) PDF)]"
      by blast
    have "shadings calls ! i = (Xpdf, map (\<lambda>d. HPDmin \<le> d) PDF)"
      using i by (simp add: sh pl(1) cs)
    then show "\<exists>a b p x PDF Xpdf HPDmin.
            pdf_item npars pdf xpdf i = Some (a, b)
            \<and> load_opt h a = Some p \<and> load_opt h b = Some x
            \<and> credregion L (column i rows) pc p x = Some (PDF, Xpdf, HPDmin)
            \<and> fst (shadings calls ! i) = Xpdf
            \<and> length (snd (shadings calls ! i)) = length PDF
            \<and> (\<forall>k<length PDF. snd (shadings calls ! i) ! k = (HPDmin \<le> PDF ! k))"
      using ab ld cr by auto
  qed
qed

theorem histogram_hpd_mask_witness:
  "\<exists>calls. histogram stub_lib hpd_heap 0 2 (- 12) None (Some (68 / 100)) NoArray NoArray
              = Some (hpd_heap, calls)
     \<and> credregion stub_lib [1, 2, 3, 4] (68 / 100) None None = Some ([1, 3, 2], [0, 1, 2], 2)
     \<and> shadings calls = [([0, 1, 2], [False, True, True])]"
proof -
  define rows :: "real list list" where "rows = [[1], [2], [3], [4]]"
  have d: "deref hpd_heap 0 = Some (Mat 1 rows)"
    by (simp add: hpd_heap_def deref_def rows_def)
  have e: "expand_dims (Mat 1 rows) = Some (1, rows)"
    by (simp add: expand_dims_def)
  have cr: "credregion stub_lib s pc p x = Some ([1, 3, 2], [0, 1, 2], 2)" for s pc p x
    by (simp add: stub_lib_def)
  obtain calls where run:
      "histogram stub_lib hpd_heap 0 2 (- 12) None (Some (68 / 100)) NoArray NoArray
         = Some (hpd_heap, calls)"
    using hpd_run by blast
  from histogram_hpd_mask [OF d e run]
  have len: "length (shadings calls) = 1"
    and "\<exists>a b p x PDF Xpdf HPDmin.
            credregion stub_lib (column 0 rows) (68 / 100) p x = Some (PDF, Xpdf, HPDmin)
            \<and> fst (shadings calls ! 0) = Xpdf
            \<and> length (snd (shadings calls ! 0)) = length PDF
            \<and> (\<forall>k<length PDF. snd (shadings calls ! 0) ! k = (HPDmin \<le> PDF ! k))"
    by auto
  then have x: "fst (shadings calls ! 0) = [0, 1, 2]"
    and l: "length (snd (shadings calls ! 0)) = 3"
    and k: "\<forall>k<3. snd (shadings calls ! 0) ! k = (2 \<le> [1, 3, 2::real] ! k)"
    by (auto simp: cr)
  have "snd (shadings calls ! 0) = [False, True, True]"
  proof (rule nth_equalityI)
    show "length (snd (shadings calls ! 0)) = length [False, True, True]" using l by simp
  next
    fix i assume "i < length (snd (shadings calls ! 0))"
    then have "i < 3" using l by simp
    then have "i = 0 \<or> i = 1 \<or> i = 2" by arith
    then show "snd (shadings calls ! 0) ! i = [False, True, True] ! i"
      using k by auto
  qed
  with x have "shadings calls ! 0 = ([0, 1, 2], [False, True, True])"
    by (simp add: prod_eq_iff)
  with len have "shadings calls = [([0, 1, 2], [False, True, True])]"
    by (cases "shadings calls") auto
  then show ?thesis using run cr by blast
qed

subsection \<open>histogram: the grid of panels\<close>

text \<open>
  Claim C2, as the code has it. For \<open>npars \<ge> 1\<close> parameters \<open>histogram\<close> draws one histogram of
  25 bins per parameter, of the thinned samples of that parameter, in panels
  \<open>1, \<dots>, npars\<close> of one grid; it returns whenever no percentile is asked for, the stride is
  not zero and the plotting library answers. The grid has \<open>npars\<close> columns for
  \<open>npars \<le> 3\<close>, 2 columns for \<open>npars = 4\<close>, 3 columns for \<open>5 \<le> npars \<le> 9\<close> and 4 columns
  for \<open>npars > 9\<close>, and it has room for every panel.
\<close>

theorem histogram_layout:
  assumes "deref h posterior = Some p" and "expand_dims p = Some (npars, rows)"
    and "1 \<le> npars"
  shows "(percentile = None \<and> thinning \<noteq> 0 \<and> (\<forall>d. hist L d 25 \<noteq> None)
            \<longrightarrow> histogram L h posterior thinning fignum savefile percentile pdf xpdf \<noteq> None)
       \<and> (\<forall>h' calls.
            histogram L h posterior thinning fignum savefile percentile pdf xpdf = Some (h', calls)
            \<longrightarrow> hists calls = map (\<lambda>i. (strided thinning (column i rows), 25)) [0..<npars]
              \<and> take npars (subplots calls)
                  = map (\<lambda>i. (nrows (int npars), ncolumns (int npars), int i + 1)) [0..<npars])
       \<and> ncolumns (int npars)
           = (if npars \<le> 3 then int npars else if npars = 4 then 2 else if npars \<le> 9 then 3 else 4)
       \<and> int npars \<le> nrows (int npars) * ncolumns (int npars)"
proof (intro conjI allI impI)
  assume a: "percentile = None \<and> thinning \<noteq> 0 \<and> (\<forall>d. hist L d 25 \<noteq> None)"
  have "\<And>i. \<exists>r. histogram_panel L h npars rows thinning percentile pdf xpdf i = Some r"
  proof -
    fix i
    from a obtain vals bins where "hist L (strided thinning (column i rows)) 25 = Some (vals, bins)"
      by (metis option.exhaust surj_pair)
    then show "\<exists>r. histogram_panel L h npars rows thinning percentile pdf xpdf i = Some r"
      using a by (simp add: histogram_panel_def slice0_def Let_def)
  qed
  then obtain f where f: "\<And>i. histogram_panel L h npars rows thinning percentile pdf xpdf i = Some (f i)"
    by metis
  have "map (histogram_panel L h npars rows thinning percentile pdf xpdf) [0..<npars]
          = map (\<lambda>i. Some (f i)) [0..<npars]"
    by (simp add: f)
  then have "those (map (histogram_panel L h npars rows thinning percentile pdf xpdf) [0..<npars])
          = Some (map f [0..<npars])"
    by (simp only: those_map_Some)
  then show "histogram L h posterior thinning fignum savefile percentile pdf xpdf \<noteq> None"
    using assms by (simp add: histogram_def Let_def)
next
  fix h' calls
  assume run: "histogram L h posterior thinning fignum savefile percentile pdf xpdf = Some (h', calls)"
  from histogram_unfold [OF run assms(1,2)] obtain panels m ht where
      ps: "those (map (histogram_panel L h npars rows thinning percentile pdf xpdf) [0..<npars])
             = Some panels"
    and calls: "calls = [Figure fignum 8 ht, Clf] @ concat (map fst panels)
               @ concat (map (\<lambda>i. [Subplot (nrows (int npars)) (ncolumns (int npars)) (int i + 1),
                                    SetYlim 0 m]) [0..<npars])
               @ savefig savefile"
    by blast
  note pl = histogram_panels [OF ps]
  have h1: "concat (map (\<lambda>q. hists (fst q)) panels)
      = map (\<lambda>i. (strided thinning (column i rows), 25)) [0..<npars]"
    by (rule concat_singletons [OF pl(1)]) (use pl(2) histogram_panel_common in blast)
  have s1: "concat (map (\<lambda>q. subplots (fst q)) panels)
      = map (\<lambda>i. (nrows (int npars), ncolumns (int npars), int i + 1)) [0..<npars]"
    by (rule concat_singletons [OF pl(1)]) (use pl(2) histogram_panel_common in blast)
  have hc: "hists (concat (map fst panels)) = concat (map (\<lambda>q. hists (fst q)) panels)"
    by (induction panels) (simp_all add: hists_append)
  have sc: "subplots (concat (map fst panels)) = concat (map (\<lambda>q. subplots (fst q)) panels)"
    by (induction panels) (simp_all add: subplots_append)
  show "hists calls = map (\<lambda>i. (strided thinning (column i rows), 25)) [0..<npars]"
    by (simp add: calls hists_append hc h1 rescale_extract savefig_extract)
  show "take npars (subplots calls)
          = map (\<lambda>i. (nrows (int npars), ncolumns (int npars), int i + 1)) [0..<npars]"
    by (simp add: calls subplots_append sc s1 rescale_extract savefig_extract)
next
  show "ncolumns (int npars)
           = (if npars \<le> 3 then int npars else if npars = 4 then 2 else if npars \<le> 9 then 3 else 4)"
    by (rule ncolumns_cases [OF assms(3)])
  show "int npars \<le> nrows (int npars) * ncolumns (int npars)"
    by (rule grid_holds_panels [OF assms(3)])
qed

theorem histogram_layout_witness:
  "\<exists>calls. histogram stub_lib layout_heap 0 1 (- 12) None None NoArray NoArray
              = Some (layout_heap, calls)
     \<and> hists calls = [([1, 5], 25), ([2, 6], 25), ([3, 7], 25), ([4, 8], 25)]
     \<and> take 4 (subplots calls) = [(2, 2, 1), (2, 2, 2), (2, 2, 3), (2, 2, 4)]
     \<and> ncolumns 4 = 2"
proof -
  define rows :: "real list list" where "rows = [[1, 2, 3, 4], [5, 6, 7, 8]]"
  have d: "deref layout_heap 0 = Some (Mat 4 rows)"
    by (simp add: layout_heap_def deref_def rows_def)
  have e: "expand_dims (Mat 4 rows) = Some (4, rows)"
    by (simp add: expand_dims_def)
  have ok: "percentile = None \<and> (1::int) \<noteq> 0 \<and> (\<forall>d. hist stub_lib d 25 \<noteq> None)"
    if "percentile = None" for percentile :: "real option"
    using that by (simp add: stub_lib_def)
  from histogram_layout [OF d e, of None 1 stub_lib "- 12" None NoArray NoArray]
  obtain h' calls where run:
      "histogram stub_lib layout_heap 0 1 (- 12) None None NoArray NoArray = Some (h', calls)"
    and hs: "hists calls = map (\<lambda>i. (strided 1 (column i rows), 25)) [0..<4]"
    and sp: "take 4 (subplots calls) = map (\<lambda>i. (nrows (int 4), ncolumns (int 4), int i + 1)) [0..<4]"
    and nc: "ncolumns (int 4) = 2"
    using ok [of None] by (auto simp del: upt_Suc)
  have h': "h' = layout_heap"
    using histogram_unfold [OF run d e] by blast
  have m1: "map (\<lambda>i. (strided 1 (column i rows), 25::nat)) [0..<4]
      = [([1, 5], 25), ([2, 6], 25), ([3, 7], 25), ([4, 8], 25)]"
    unfolding rows_def by code_simp
  have m2: "map (\<lambda>i. (nrows (int 4), ncolumns (int 4), int i + 1)) [0..<4]
      = [(2, 2, 1), (2, 2, 2), (2, 2, 3), (2, 2, 4)]"
    by code_simp
  have "ncolumns 4 = 2" using nc by simp
  then show ?thesis
    using run hs sp unfolding h' m1 m2 by blast
qed

text \<open>
  The claim as stated gives 3 columns whenever \<open>npars \<le> 4\<close>. The example of the
  specification, \<open>histogram([1,2,2,3,3,3], percentile=None)\<close>, has one parameter and is drawn
  in a grid of one row and one column.
\<close>

theorem histogram_columns_counterexample:
  "histogram stub_lib [Vec [1, 2, 2, 3, 3, 3]] 0 1 (- 12) None None NoArray NoArray
     = Some ([Vec [1, 2, 2, 3, 3, 3]],
         [Figure (- 12) 8 4, Clf, Subplot 1 1 1, Hist [1, 2, 2, 3, 3, 3] 25 False,
          Subplot 1 1 1, SetYlim 0 1])
   \<and> ncolumns 1 \<noteq> 3"
  by code_simp

subsection \<open>histogram: the samples behind the region and behind the histogram\<close>



subsection \<open>pairwise: the levels of the contours\<close>

text \<open>
  Claim C3, as the code has it. In every panel that \<open>pairwise\<close> draws, the list of levels
  is a zero followed by the \<open>nlevels\<close> values of \<open>np.linspace(1, lmax[k], nlevels)\<close>, where
  \<open>lmax[k]\<close> is the largest bin count of that panel's histogram plus one, or, with
  \<open>absolute_dens\<close>, the largest bin count over all panels plus one. For \<open>nlevels \<ge> 2\<close> the
  last level is that value.
\<close>

theorem pairwise_levels:
  assumes load: "load_mat h posterior = Some (npars, rows)"
    and run: "pairwise L h posterior thinning fignum savefile nbins nlevels absolute_dens
                = Some (h', calls)"
    and t: "t < length (contours calls)"
  shows "\<exists>lv. lv = (if absolute_dens
                     then Max (bin_max L rows thinning nbins ` set (plotted npars))
                     else bin_max L rows thinning nbins (plotted npars ! t)) + 1
          \<and> fst (snd (contours calls ! t))
              = 0 # map (\<lambda>k. 1 + real k * ((lv - 1) / real (nat nlevels - 1))) [0..<nat nlevels]
          \<and> length (fst (snd (contours calls ! t))) = nat nlevels + 1
          \<and> (2 \<le> nlevels \<longrightarrow> last (fst (snd (contours calls ! t))) = lv)"
proof -
  have n1: "npars \<noteq> 1"
  proof
    assume "npars = 1"
    then have "calls = []" using run load by (simp add: pairwise_def)
    then show False using t by simp
  qed
  note pc = pairwise_contours [OF run load n1]
  define lv where "lv = (if absolute_dens
                     then Max (bin_max L rows thinning nbins ` set (plotted npars))
                     else bin_max L rows thinning nbins (plotted npars ! t)) + 1"
  have "t < length (plotted npars)" using t pc(1) by simp
  from pc(2) [OF this] obtain hh lev ext where
      lev: "linspace 1 lv nlevels = Some lev"
    and ct: "contours calls ! t = (transpose hh, 0 # lev, ext)"
    unfolding lv_def by blast
  from lev have lev': "lev = map (\<lambda>k. 1 + real k * ((lv - 1) / real (nat nlevels - 1))) [0..<nat nlevels]"
    by (auto simp: linspace_def split: if_splits)
  have f: "fst (snd (contours calls ! t))
      = 0 # map (\<lambda>k. 1 + real k * ((lv - 1) / real (nat nlevels - 1))) [0..<nat nlevels]"
    by (simp add: ct lev')
  have l: "length (fst (snd (contours calls ! t))) = nat nlevels + 1"
    by (simp add: f)
  have "last (fst (snd (contours calls ! t))) = lv" if "2 \<le> nlevels"
    unfolding f by (rule linspace_last [OF that])
  with f l lv_def show ?thesis by blast
qed

theorem pairwise_levels_witness:
  "\<exists>calls. pairwise stub_lib pair_heap 0 1 (- 11) None 35 3 False = Some (pair_heap, calls)
     \<and> bin_max stub_lib [[1, 2, 3], [4, 5, 6]] 1 35 (plotted 3 ! 0) = 7
     \<and> fst (snd (contours calls ! 0)) = [0, 1, 9 / 2, 8]
     \<and> last (fst (snd (contours calls ! 0))) = 8"
proof -
  have l3: "load_mat pair_heap 0 = Some (3, [[1, 2, 3], [4, 5, 6]])"
    by (simp add: load_mat_def deref_def pair_heap_def)
  obtain calls where run: "pairwise stub_lib pair_heap 0 1 (- 11) None 35 3 False
      = Some (pair_heap, calls)"
    and t: "0 < length (contours calls)"
    using pair_run by auto
  have bm: "bin_max stub_lib [[1, 2, 3], [4, 5, 6]] 1 35 (plotted 3 ! 0) = 7"
    by code_simp
  have m: "map (\<lambda>k. 1 + real k * (((8::real) - 1) / real (nat 3 - 1))) [0..<nat 3] = [1, 9 / 2, 8]"
    by code_simp
  from pairwise_levels [OF l3 run t]
  have "fst (snd (contours calls ! 0)) = [0, 1, 9 / 2, 8]
      \<and> last (fst (snd (contours calls ! 0))) = 8"
    using m by (simp add: bm)
  with run bm show ?thesis by blast
qed

text \<open>
  The claim as stated takes the largest bin count itself for the top level. In the run
  below the first panel's histogram has the largest count 7 and its top level is 8.
\<close>

theorem pairwise_levels_counterexample:
  "pairwise stub_lib pair_heap 0 1 (- 11) None 35 3 False
     = Some (pair_heap,
         [Figure (- 11) 8 8, Clf,
          Subplot 2 2 1, Contourf [[2, 1], [0, 7]] [0, 1, 9 / 2, 8] (0, 2, 3, 5),
          Subplot 2 2 3, Contourf [[2, 1], [0, 9]] [0, 1, 11 / 2, 10] (0, 2, 3, 5),
          Subplot 2 2 4, Contourf [[2, 1], [0, 9]] [0, 1, 11 / 2, 10] (0, 2, 3, 5),
          Colorbar [0, 1 / 2, 1]])
   \<and> histogram2d stub_lib [1, 4] [2, 5] 35 = Some ([[2, 0], [1, 7]], [0, 1, 2], [3, 4, 5])
   \<and> amax (concat [[2, 0], [1, 7 :: real]]) = Some 7
   \<and> last [0, 1, 9 / 2, 8 :: real] \<noteq> 7"
  by code_simp

subsection \<open>pairwise: the number of panels\<close>



subsection \<open>trace: burn-in, chains and separations\<close>




subsection \<open>No renderer changes an array of its caller\<close>

text \<open>
  Claim C9. When one of the five renderers returns, every array that was in the store
  before the call, so every array the caller passed, holds what it held before: the store
  after the call begins with the store before it. The only assignments into arrays are
  those of \<open>trace\<close> into \<open>good\<close> and of \<open>RMS\<close> into its own list \<open>yran\<close>, both built by the
  renderer itself. (The collaborators are taken to read their arguments only.)
\<close>

theorem renderers_leave_inputs:
  "(trace L h posterior Zchain thinning burnin fignum savefile fmt = Some (h', calls)
      \<longrightarrow> take (length h) h' = h)
   \<and> (pairwise L h posterior thinning fignum savefile nbins nlevels absolute_dens = Some (h', calls)
      \<longrightarrow> take (length h) h' = h)
   \<and> (histogram L h posterior thinning fignum savefile percentile pdf xpdf = Some (h', calls)
      \<longrightarrow> take (length h) h' = h)
   \<and> (RMS h binsz rms stderr rmslo rmshi cadence binstep timepoints ratio fignum yran xran savefile
        = Some (h', calls)
      \<longrightarrow> take (length h) h' = h)
   \<and> (modelfit L h data uncert indparams model nbins fignum savefile fmt = Some (h', calls)
      \<longrightarrow> take (length h) h' = h)"
proof (intro conjI impI)
  assume "trace L h posterior Zchain thinning burnin fignum savefile fmt = Some (h', calls)"
  then show "take (length h) h' = h" by (rule trace_frame)
next
  assume "pairwise L h posterior thinning fignum savefile nbins nlevels absolute_dens
            = Some (h', calls)"
  then show "take (length h) h' = h" by (rule pairwise_frame)
next
  assume "histogram L h posterior thinning fignum savefile percentile pdf xpdf = Some (h', calls)"
  then show "take (length h) h' = h" by (rule histogram_frame)
next
  assume "RMS h binsz rms stderr rmslo rmshi cadence binstep timepoints ratio fignum yran xran
            savefile = Some (h', calls)"
  then show "take (length h) h' = h" by (rule RMS_frame)
next
  assume "modelfit L h data uncert indparams model nbins fignum savefile fmt = Some (h', calls)"
  then show "take (length h) h' = h" by (rule modelfit_frame)
qed

theorem renderers_leave_inputs_witness:
  "(\<exists>h' calls. trace stub_lib trace_heap 0 (Some 1) 2 1 (- 10) None ''.'' = Some (h', calls)
       \<and> take 2 h' = trace_heap)
   \<and> (\<exists>h' calls. pairwise stub_lib pair_heap 0 1 (- 11) None 35 3 False = Some (h', calls)
       \<and> take 1 h' = pair_heap)
   \<and> (\<exists>h' calls. histogram stub_lib hpd_heap 0 2 (- 12) None (Some (68 / 100)) NoArray NoArray
                      = Some (h', calls)
       \<and> take 1 h' = hpd_heap)
   \<and> (\<exists>h' calls. RMS rms_heap 0 1 2 3 4 None 1 5 True (- 20) None None None = Some (h', calls)
       \<and> length h' = 8 \<and> take 6 h' = rms_heap)
   \<and> (\<exists>h' calls. modelfit stub_lib rms_heap 1 2 0 1 75 (- 22) None ''.'' = Some (h', calls)
       \<and> take 6 h' = rms_heap)"
proof (intro conjI)
  obtain h' calls where r: "trace stub_lib trace_heap 0 (Some 1) 2 1 (- 10) None ''.''
      = Some (h', calls)"
    using trace_run by blast
  have "take (length trace_heap) h' = trace_heap"
    by (rule renderers_leave_inputs [THEN conjunct1, rule_format, OF r])
  moreover have "length trace_heap = 2" by (simp add: trace_heap_def)
  ultimately have "take 2 h' = trace_heap" by (simp only:)
  with r show "\<exists>h' calls. trace stub_lib trace_heap 0 (Some 1) 2 1 (- 10) None ''.''
      = Some (h', calls) \<and> take 2 h' = trace_heap"
    by blast
next
  obtain h' calls where r: "pairwise stub_lib pair_heap 0 1 (- 11) None 35 3 False = Some (h', calls)"
    using pair_run by blast
  have "take (length pair_heap) h' = pair_heap"
    by (rule renderers_leave_inputs [THEN conjunct2, THEN conjunct1, rule_format, OF r])
  moreover have "length pair_heap = 1" by (simp add: pair_heap_def)
  ultimately have "take 1 h' = pair_heap" by (simp only:)
  with r show "\<exists>h' calls. pairwise stub_lib pair_heap 0 1 (- 11) None 35 3 False = Some (h', calls)
      \<and> take 1 h' = pair_heap"
    by blast
next
  obtain h' calls where r: "histogram stub_lib hpd_heap 0 2 (- 12) None (Some (68 / 100)) NoArray
      NoArray = Some (h', calls)"
    using hpd_run by blast
  have "take (length hpd_heap) h' = hpd_heap"
    by (rule renderers_leave_inputs [THEN conjunct2, THEN conjunct2, THEN conjunct1, rule_format,
          OF r])
  moreover have "length hpd_heap = 1" by (simp add: hpd_heap_def)
  ultimately have "take 1 h' = hpd_heap" by (simp only:)
  with r show "\<exists>h' calls. histogram stub_lib hpd_heap 0 2 (- 12) None (Some (68 / 100)) NoArray
      NoArray = Some (h', calls) \<and> take 1 h' = hpd_heap"
    by blast
next
  obtain h' calls where r: "RMS rms_heap 0 1 2 3 4 None 1 5 True (- 20) None None None
      = Some (h', calls)" and l: "length h' = 8"
    using rms_run by auto
  have "take (length rms_heap) h' = rms_heap"
    by (rule renderers_leave_inputs [THEN conjunct2, THEN conjunct2, THEN conjunct2,
          THEN conjunct1, rule_format, OF r])
  moreover have "length rms_heap = 6" by (simp add: rms_heap_def)
  ultimately have "take 6 h' = rms_heap" by (simp only:)
  with r l show "\<exists>h' calls. RMS rms_heap 0 1 2 3 4 None 1 5 True (- 20) None None None
      = Some (h', calls) \<and> length h' = 8 \<and> take 6 h' = rms_heap"
    by blast
next
  obtain h' calls where r: "modelfit stub_lib rms_heap 1 2 0 1 75 (- 22) None ''.''
      = Some (h', calls)"
    using modelfit_run by blast
  have "take (length rms_heap) h' = rms_heap"
    by (rule renderers_leave_inputs [THEN conjunct2, THEN conjunct2, THEN conjunct2,
          THEN conjunct2, rule_format, OF r])
  moreover have "length rms_heap = 6" by (simp add: rms_heap_def)
  ultimately have "take 6 h' = rms_heap" by (simp only:)
  with r show "\<exists>h' calls. modelfit stub_lib rms_heap 1 2 0 1 75 (- 22) None ''.''
      = Some (h', calls) \<and> take 6 h' = rms_heap"
    by blast
qed

end
